theory Spec2Isabelle
  imports Complex_Main "HOL-Library.Word" "HOL-Library.Char_ord" "HOL-Library.List_Lexorder"
begin

section \<open>The audio output service of the Gemini Live client\<close>

text \<open>
  This theory embeds \<^verbatim>\<open>src/services/AudioOutputService.js\<close>: the WAV container
  encoder, the chunk aggregator, the playback queue and the temporary-file janitor.

  Conventions of the embedding.
  \<^item> A byte is an \<open>8 word\<close>; a \<^verbatim>\<open>Buffer\<close>, \<^verbatim>\<open>Uint8Array\<close> or \<^verbatim>\<open>ArrayBuffer\<close> is a
    list of bytes.
  \<^item> The numbers the service handles (lengths, rates, channel counts) are natural
    numbers. JavaScript holds them as doubles, which are exact below \<open>2 ^ 53\<close>: the
    model is about numbers in that range, where \<^verbatim>\<open>parseInt\<close> and the decimal text of a
    number are exact too. The quotients \<^verbatim>\<open>x / 8\<close> of the header are real numbers.
  \<^item> An exception is a value \<open>Inl e\<close> of a sum type; \<^verbatim>\<open>try/catch\<close> is a case
    distinction on it.
  \<^item> Strings are 8-bit character lists; file names and MIME types are ASCII.
  \<^item> A leading underscore is not part of an Isabelle name: \<^verbatim>\<open>_createWavHeader\<close> is
    \<open>createWavHeader\<close> here, and so on.
\<close>

subsection \<open>Bytes, errors and the console\<close>

type_synonym byte = "8 word"

datatype js_error = RangeError | TypeError | IOError

datatype level = LOG | WARN | ERROR

text \<open>
  A console line is its level (\<^verbatim>\<open>console.log\<close>, \<^verbatim>\<open>console.warn\<close>, \<^verbatim>\<open>console.error\<close>)
  and the fixed part of its message, abridged.
\<close>

type_synonym logline = "level \<times> string"

definition andThen :: "js_error + 'a \<Rightarrow> ('a \<Rightarrow> js_error + 'b) \<Rightarrow> js_error + 'b" where
  "andThen r f = (case r of Inl e \<Rightarrow> Inl e | Inr v \<Rightarrow> f v)"

subsection \<open>The \<^verbatim>\<open>Buffer\<close> operations the encoder uses\<close>

text \<open>
  These are the operations of the \<^verbatim>\<open>buffer\<close> package as the encoder calls them.
  \<^verbatim>\<open>writeUInt32LE(value, offset)\<close> and \<^verbatim>\<open>writeUInt16LE(value, offset)\<close> first check
  \<^verbatim>\<open>value > max || value < min\<close> and the offset, throwing a \<^verbatim>\<open>RangeError\<close>, then
  store the bytes of the value with its fraction cut off, least significant first.
\<close>

definition Buffer_alloc :: "nat \<Rightarrow> byte list" where
  "Buffer_alloc n = replicate n 0"

definition utf8 :: "string \<Rightarrow> byte list" where
  "utf8 s = map (\<lambda>c. of_nat (of_char c)) s"

text \<open>
  \<open>copyInto src off dst\<close> is \<^verbatim>\<open>src.copy(dst, off)\<close>: the bytes of \<open>src\<close> overwrite
  \<open>dst\<close> from \<open>off\<close> on, as many as fit.
\<close>

definition copyInto :: "byte list \<Rightarrow> nat \<Rightarrow> byte list \<Rightarrow> byte list" where
  "copyInto src off dst =
     take off dst @ take (length dst - off) src @ drop (off + length src) dst"

definition Buffer_write :: "string \<Rightarrow> nat \<Rightarrow> byte list \<Rightarrow> byte list" where
  "Buffer_write s off buf = copyInto (utf8 s) off buf"

definition checkInt :: "byte list \<Rightarrow> real \<Rightarrow> nat \<Rightarrow> nat \<Rightarrow> real \<Rightarrow> real \<Rightarrow> js_error + unit" where
  "checkInt buf v off ext mx mn =
     (if v > mx \<or> v < mn then Inl RangeError
      else if off + ext > length buf then Inl RangeError
      else Inr ())"

definition writeUInt32LE :: "real \<Rightarrow> nat \<Rightarrow> byte list \<Rightarrow> js_error + byte list" where
  "writeUInt32LE v off buf =
     andThen (checkInt buf v off 4 4294967295 0) (\<lambda>_.
       let n = nat \<lfloor>v\<rfloor> in
       Inr (buf[off + 3 := of_nat (n div 16777216),
                off + 2 := of_nat (n div 65536),
                off + 1 := of_nat (n div 256),
                off := of_nat n]))"

definition writeUInt16LE :: "real \<Rightarrow> nat \<Rightarrow> byte list \<Rightarrow> js_error + byte list" where
  "writeUInt16LE v off buf =
     andThen (checkInt buf v off 2 65535 0) (\<lambda>_.
       let n = nat \<lfloor>v\<rfloor> in
       Inr (buf[off := of_nat n,
                off + 1 := of_nat (n div 256)]))"

subsection \<open>The WAV encoder\<close>

definition createWavHeader :: "nat \<Rightarrow> nat \<Rightarrow> nat \<Rightarrow> nat \<Rightarrow> js_error + byte list" where
  "createWavHeader sampleRate bitsPerSample numChannels dataLength =
     (let byteRate = (real sampleRate * real numChannels * real bitsPerSample) / 8;
          blockAlign = (real numChannels * real bitsPerSample) / 8;
          buffer = Buffer_alloc 44
      in andThen (Inr (Buffer_write ''RIFF'' 0 buffer)) (\<lambda>buffer.
         andThen (writeUInt32LE (real (36 + dataLength)) 4 buffer) (\<lambda>buffer.
         andThen (Inr (Buffer_write ''WAVE'' 8 buffer)) (\<lambda>buffer.
         andThen (Inr (Buffer_write ''fmt '' 12 buffer)) (\<lambda>buffer.
         andThen (writeUInt32LE 16 16 buffer) (\<lambda>buffer.
         andThen (writeUInt16LE 1 20 buffer) (\<lambda>buffer.
         andThen (writeUInt16LE (real numChannels) 22 buffer) (\<lambda>buffer.
         andThen (writeUInt32LE (real sampleRate) 24 buffer) (\<lambda>buffer.
         andThen (writeUInt32LE byteRate 28 buffer) (\<lambda>buffer.
         andThen (writeUInt16LE blockAlign 32 buffer) (\<lambda>buffer.
         andThen (writeUInt16LE (real bitsPerSample) 34 buffer) (\<lambda>buffer.
         andThen (Inr (Buffer_write ''data'' 36 buffer)) (\<lambda>buffer.
         andThen (writeUInt32LE (real dataLength) 40 buffer) (\<lambda>buffer.
         Inr buffer))))))))))))))"

definition combineWavData :: "byte list \<Rightarrow> byte list \<Rightarrow> byte list" where
  "combineWavData header pcmData =
     (let combinedLength = length header + length pcmData;
          combinedBuffer = Buffer_alloc combinedLength;
          combinedBuffer = copyInto header 0 combinedBuffer;
          combinedBuffer = copyInto pcmData (length header) combinedBuffer
      in combinedBuffer)"

text \<open>
  \<open>createWavFromPcm\<close> returns what it prints on the console and either the container
  or the error it rethrows.
\<close>

definition createWavFromPcm ::
  "byte list \<Rightarrow> nat \<Rightarrow> nat \<Rightarrow> nat \<Rightarrow> logline list \<times> (js_error + byte list)" where
  "createWavFromPcm pcmBytes sampleRate numChannels bitsPerSample =
     (case createWavHeader sampleRate bitsPerSample numChannels (length pcmBytes) of
        Inl e \<Rightarrow> ([(ERROR, ''Error creating WAV from PCM:'')], Inl e)
      | Inr header \<Rightarrow> ([(LOG, ''AudioOutputService: WAV from PCM'')],
                       Inr (combineWavData header pcmBytes)))"

text \<open>
  Little-endian byte strings, and a reader of the container's fields; the theorems
  about the header are stated with them.
\<close>

definition le16 :: "nat \<Rightarrow> byte list" where
  "le16 n = [of_nat n, of_nat (n div 256)]"

definition le32 :: "nat \<Rightarrow> byte list" where
  "le32 n = [of_nat n, of_nat (n div 256), of_nat (n div 65536), of_nat (n div 16777216)]"

definition readUInt16LE :: "byte list \<Rightarrow> nat \<Rightarrow> nat" where
  "readUInt16LE buf off = unat (buf ! off) + 256 * unat (buf ! (off + 1))"

definition readUInt32LE :: "byte list \<Rightarrow> nat \<Rightarrow> nat" where
  "readUInt32LE buf off =
     unat (buf ! off) + 256 * unat (buf ! (off + 1)) + 65536 * unat (buf ! (off + 2))
       + 16777216 * unat (buf ! (off + 3))"

definition slice :: "byte list \<Rightarrow> nat \<Rightarrow> nat \<Rightarrow> byte list" where
  "slice buf start end = take (end - start) (drop start buf)"

text \<open>The header fields fit their widths: no write of the encoder is out of range.\<close>

definition fieldsFit :: "nat \<Rightarrow> nat \<Rightarrow> nat \<Rightarrow> nat \<Rightarrow> bool" where
  "fieldsFit dataLength sampleRate numChannels bitsPerSample \<longleftrightarrow>
     36 + dataLength \<le> 4294967295 \<and> numChannels \<le> 65535 \<and> sampleRate \<le> 4294967295
     \<and> sampleRate * numChannels * bitsPerSample \<le> 8 * 4294967295
     \<and> numChannels * bitsPerSample \<le> 8 * 65535 \<and> bitsPerSample \<le> 65535"

text \<open>The 44 bytes of the header, field by field.\<close>

definition wavHeader :: "nat \<Rightarrow> nat \<Rightarrow> nat \<Rightarrow> nat \<Rightarrow> byte list" where
  "wavHeader dataLength sampleRate numChannels bitsPerSample =
     utf8 ''RIFF'' @ le32 (36 + dataLength) @ utf8 ''WAVE''
     @ utf8 ''fmt '' @ le32 16 @ le16 1 @ le16 numChannels @ le32 sampleRate
     @ le32 (sampleRate * numChannels * bitsPerSample div 8)
     @ le16 (numChannels * bitsPerSample div 8) @ le16 bitsPerSample
     @ utf8 ''data'' @ le32 dataLength"

subsection \<open>Values, strings and numbers of the chunk interface\<close>

text \<open>
  A chunk is any JavaScript value; the service inspects it with \<^verbatim>\<open>typeof\<close>,
  \<^verbatim>\<open>instanceof\<close> and truthiness. The constructors are the cases those tests tell
  apart:
  \<^item> \<open>Falsy\<close>: \<^verbatim>\<open>null\<close>, \<^verbatim>\<open>undefined\<close>, \<^verbatim>\<open>0\<close>, \<^verbatim>\<open>NaN\<close>, \<^verbatim>\<open>false\<close>;
  \<^item> \<open>Other\<close>: a truthy value that is neither a string nor an object (a non-zero
    number, \<^verbatim>\<open>true\<close>, a function);
  \<^item> \<open>Str\<close>: a string (the empty string is falsy);
  \<^item> \<open>ArrayBuffer\<close>, \<open>Uint8Array\<close>: binary data (a \<^verbatim>\<open>Buffer\<close> is a \<^verbatim>\<open>Uint8Array\<close>);
  \<^item> \<open>Obj t d m\<close>: any other object, with its fields \<^verbatim>\<open>type\<close> (\<open>Some s\<close> when it is
    the string \<open>s\<close>), \<^verbatim>\<open>data\<close> and \<^verbatim>\<open>mimeType\<close>.
  A \<^verbatim>\<open>mimeType\<close> that is present is a string, as the transport sends it. On these
  values no operation inside the \<^verbatim>\<open>try\<close> blocks of \<^verbatim>\<open>_combineAudioChunks\<close> and of
  \<^verbatim>\<open>_processQueue\<close> throws but the container encoder, so the other \<^verbatim>\<open>catch\<close> branches
  have no part in the model.
\<close>

datatype jsval =
    Falsy
  | Other
  | Str string
  | ArrayBuffer "byte list"
  | Uint8Array "byte list"
  | Obj "string option" jsval "string option"

fun truthy :: "jsval \<Rightarrow> bool" where
  "truthy Falsy = False"
| "truthy (Str s) = (s \<noteq> [])"
| "truthy v = True"

text \<open>
  \<^verbatim>\<open>Buffer.from(s, "base64")\<close> is a function of the \<^verbatim>\<open>buffer\<close> package; the service
  takes it as a parameter of this type.
\<close>

type_synonym base64 = "string \<Rightarrow> byte list"

definition startsWith :: "string \<Rightarrow> string \<Rightarrow> bool" where
  "startsWith s p \<longleftrightarrow> take (length p) s = p"


fun str_includes :: "string \<Rightarrow> string \<Rightarrow> bool" where
  "str_includes [] p = (p = [])"
| "str_includes (c # cs) p = (startsWith (c # cs) p \<or> str_includes cs p)"

definition isDigit :: "char \<Rightarrow> bool" where
  "isDigit c \<longleftrightarrow> 48 \<le> (of_char c :: nat) \<and> (of_char c :: nat) \<le> 57"

text \<open>\<open>rateMatch s\<close> is the capture group of \<^verbatim>\<open>s.match(/rate=(\d+)/)\<close>.\<close>

fun rateMatch :: "string \<Rightarrow> string option" where
  "rateMatch [] = None"
| "rateMatch (c # cs) =
     (let ds = takeWhile isDigit (drop 5 (c # cs)) in
      if startsWith (c # cs) ''rate='' \<and> ds \<noteq> [] then Some ds else rateMatch cs)"

text \<open>\<^verbatim>\<open>parseInt(ds, 10)\<close> on a string of digits.\<close>

definition parseInt :: "string \<Rightarrow> nat" where
  "parseInt ds = foldl (\<lambda>n c. 10 * n + (of_char c - 48)) 0 ds"

text \<open>The decimal text of a number, as a template literal prints it below \<open>10 ^ 21\<close>.\<close>

definition digitChar :: "nat \<Rightarrow> char" where
  "digitChar d = ''0123456789'' ! d"

fun numberToString :: "nat \<Rightarrow> string" where
  "numberToString n =
     (if n < 10 then [digitChar n]
      else numberToString (n div 10) @ [digitChar (n mod 10)])"

abbreviation OUTPUT_SAMPLE_RATE :: nat where "OUTPUT_SAMPLE_RATE \<equiv> 24000"
abbreviation OUTPUT_CHANNELS :: nat where "OUTPUT_CHANNELS \<equiv> 1"
abbreviation OUTPUT_BITS_PER_SAMPLE :: nat where "OUTPUT_BITS_PER_SAMPLE \<equiv> 16"
abbreviation BUFFER_CHUNK_THRESHOLD :: nat where "BUFFER_CHUNK_THRESHOLD \<equiv> 3"

text \<open>
  The sample rate a tagged object carries in its \<^verbatim>\<open>mimeType\<close>
  (\<^verbatim>\<open>mimeType && mimeType.includes("rate=")\<close>, then the match and \<^verbatim>\<open>parseInt\<close>);
  \<open>None\<close> when the variable is left as it was.
\<close>

definition mimeRate :: "string option \<Rightarrow> nat option" where
  "mimeRate m =
     (case m of
        None \<Rightarrow> None
      | Some mimeType \<Rightarrow>
          if mimeType \<noteq> [] \<and> str_includes mimeType ''rate='' then
            (case rateMatch mimeType of None \<Rightarrow> None | Some ds \<Rightarrow> Some (parseInt ds))
          else None)"

subsection \<open>The chunk aggregator\<close>

record combined =
  data :: "byte list"
  sampleRate :: nat

text \<open>
  One turn of the first loop of \<^verbatim>\<open>_combineAudioChunks\<close>, on the triple of
  \<^verbatim>\<open>pcmDataArray\<close>, \<^verbatim>\<open>totalLength\<close> and \<^verbatim>\<open>sampleRate\<close>.
\<close>

fun scanChunk :: "base64 \<Rightarrow> byte list list \<times> nat \<times> nat \<Rightarrow> jsval \<Rightarrow> byte list list \<times> nat \<times> nat" where
  "scanChunk b64 (pcmDataArray, totalLength, rate) chunk =
     (let (pcmData, rate) =
            (case chunk of
               Obj t d m \<Rightarrow>
                 if t = Some ''audio'' \<and> truthy d
                 then (d, case mimeRate m of Some r \<Rightarrow> r | None \<Rightarrow> rate)
                 else (chunk, rate)
             | Str s \<Rightarrow> (Uint8Array (b64 s), rate)
             | _ \<Rightarrow> (chunk, rate));
          pcmData = (case pcmData of ArrayBuffer bs \<Rightarrow> Uint8Array bs | _ \<Rightarrow> pcmData)
      in case pcmData of
           Uint8Array bs \<Rightarrow> (pcmDataArray @ [bs], totalLength + length bs, rate)
         | _ \<Rightarrow> (pcmDataArray, totalLength, rate))"

text \<open>The second loop: \<^verbatim>\<open>combinedBuffer.set(data, offset)\<close> for each array in turn.\<close>

fun setAll :: "byte list list \<Rightarrow> nat \<Rightarrow> byte list \<Rightarrow> byte list" where
  "setAll [] offset combinedBuffer = combinedBuffer"
| "setAll (d # ds) offset combinedBuffer =
     setAll ds (offset + length d) (copyInto d offset combinedBuffer)"

definition combineAudioChunks :: "base64 \<Rightarrow> jsval list \<Rightarrow> combined option" where
  "combineAudioChunks b64 chunks =
     (if chunks = [] then None
      else
        let (pcmDataArray, totalLength, rate) =
              foldl (scanChunk b64) ([], 0, OUTPUT_SAMPLE_RATE) chunks;
            combinedBuffer = setAll pcmDataArray 0 (replicate totalLength 0)
        in Some \<lparr>data = combinedBuffer, sampleRate = rate\<rparr>)"

subsection \<open>The state of the service and of the platform around it\<close>

text \<open>
  The first five fields are the module's variables. The next four are the platform's
  side: the timeouts that are pending, the next timer handle (handles are positive),
  the containers given to \<^verbatim>\<open>decodeAudioData\<close> whose promise is pending, and the
  containers of the player nodes that have started and not ended. A render is active
  from the call of \<^verbatim>\<open>decodeAudioData\<close> until it fails or its node ends.
  \<open>flushed\<close> is a history variable: the windows given to \<^verbatim>\<open>_combineAudioChunks\<close> by
  \<^verbatim>\<open>_processBufferedChunks\<close>, oldest first. The output route, the InCallManager
  session and the audio context are not part of the model.
\<close>

record service =
  isPlaying :: bool
  audioQueue :: "jsval list"
  bufferAggregator :: "jsval list"
  bufferTimer :: "nat option"
  console :: "logline list"
  timers :: "nat list"
  nextTimer :: nat
  decoding :: "byte list list"
  sounding :: "byte list list"
  flushed :: "jsval list list"

definition init :: service where
  "init = \<lparr>isPlaying = False, audioQueue = [], bufferAggregator = [], bufferTimer = None,
            console = [], timers = [], nextTimer = 1, decoding = [], sounding = [],
            flushed = []\<rparr>"

definition say :: "logline list \<Rightarrow> service \<Rightarrow> service" where
  "say ls s = s\<lparr>console := console s @ ls\<rparr>"

definition setTimeout :: "service \<Rightarrow> service" where
  "setTimeout s =
     s\<lparr>bufferTimer := Some (nextTimer s), timers := timers s @ [nextTimer s],
       nextTimer := Suc (nextTimer s)\<rparr>"

definition clearBufferTimer :: "service \<Rightarrow> service" where
  "clearBufferTimer s =
     (case bufferTimer s of
        None \<Rightarrow> s
      | Some h \<Rightarrow> s\<lparr>timers := removeAll h (timers s), bufferTimer := None\<rparr>)"

subsection \<open>The playback queue\<close>

text \<open>
  \<open>processQueue_wav\<close> is the part of \<^verbatim>\<open>_processQueue\<close> between \<^verbatim>\<open>audioQueue.shift()\<close>
  and the call of \<^verbatim>\<open>decodeAudioData\<close>: what it prints, and the container, or \<open>None\<close>
  where the source gives the item up.
\<close>

definition wavOrNone :: "logline list \<times> (js_error + byte list) \<Rightarrow> logline list \<times> byte list option" where
  "wavOrNone r =
     (case r of
        (ls, Inl wavError) \<Rightarrow> (ls @ [(ERROR, ''AudioOutputService: Error creating WAV data:'')], None)
      | (ls, Inr wavData) \<Rightarrow>
          if length wavData < 44
          then (ls @ [(ERROR, ''AudioOutputService: Invalid WAV data created'')], None)
          else (ls, Some wavData))"

definition processQueue_wav :: "base64 \<Rightarrow> jsval \<Rightarrow> logline list \<times> byte list option" where
  "processQueue_wav b64 queueItem =
     (let (audioData, rate) =
            (case queueItem of
               Obj t d m \<Rightarrow>
                 if t = Some ''audio'' \<and> truthy d then (d, mimeRate m) else (queueItem, None)
             | _ \<Rightarrow> (queueItem, None))
      in if \<not> truthy audioData
         then ([(ERROR, ''AudioOutputService: Received null or empty audio data'')], None)
         else
           let outputSampleRate =
                 (case rate of
                    None \<Rightarrow> OUTPUT_SAMPLE_RATE
                  | Some r \<Rightarrow> if r = 0 then OUTPUT_SAMPLE_RATE else r)
           in case audioData of
                Str s \<Rightarrow>
                  wavOrNone (createWavFromPcm (b64 s) outputSampleRate OUTPUT_CHANNELS
                    OUTPUT_BITS_PER_SAMPLE)
              | ArrayBuffer bs \<Rightarrow>
                  wavOrNone (createWavFromPcm bs outputSampleRate OUTPUT_CHANNELS
                    OUTPUT_BITS_PER_SAMPLE)
              | Uint8Array bs \<Rightarrow>
                  wavOrNone (createWavFromPcm bs outputSampleRate OUTPUT_CHANNELS
                    OUTPUT_BITS_PER_SAMPLE)
              | Obj t d m \<Rightarrow>
                  ([(ERROR, ''AudioOutputService: Unsupported audio data format''),
                    (ERROR, ''Keys available:'')], None)
              | _ \<Rightarrow> ([(ERROR, ''AudioOutputService: Unsupported audio data format'')], None))"

function processQueue :: "base64 \<Rightarrow> service \<Rightarrow> service" where
  "processQueue b64 s =
     (if isPlaying s \<or> audioQueue s = [] then s
      else
        let queueItem = hd (audioQueue s);
            s = s\<lparr>isPlaying := True, audioQueue := tl (audioQueue s)\<rparr>
        in case processQueue_wav b64 queueItem of
             (ls, None) \<Rightarrow> processQueue b64 ((say ls s)\<lparr>isPlaying := False\<rparr>)
           | (ls, Some wavData) \<Rightarrow> (say ls s)\<lparr>decoding := decoding s @ [wavData]\<rparr>)"
  by pat_completeness auto
termination
  by (relation "measure (\<lambda>(b64, s). length (audioQueue s))") (auto simp: say_def)

declare processQueue.simps [simp del]

text \<open>
  What \<^verbatim>\<open>_processQueue\<close> does when the promise of \<^verbatim>\<open>decodeAudioData\<close> settles: the
  decoder rejects the container, or the node is made and \<^verbatim>\<open>_playSoundObject\<close>
  starts it or fails to. The two steps, a microtask apart in the source, are one
  here.
\<close>

datatype outcome = Started | DecodeFailed | StartFailed

definition afterDecode :: "base64 \<Rightarrow> byte list \<Rightarrow> outcome \<Rightarrow> service \<Rightarrow> service" where
  "afterDecode b64 wavData out s =
     (case out of
        DecodeFailed \<Rightarrow>
          processQueue b64
            ((say [(ERROR, ''AudioOutputService: Error playing audio:'')] s)\<lparr>isPlaying := False\<rparr>)
      | StartFailed \<Rightarrow>
          processQueue b64
            ((say [(LOG, ''AudioOutputService: Playing audio''),
                   (ERROR, ''AudioOutputService: Error playing sound:''),
                   (ERROR, ''AudioOutputService: Failed to play audio'')] s)\<lparr>isPlaying := False\<rparr>)
      | Started \<Rightarrow>
          (say [(LOG, ''AudioOutputService: Playing audio''),
                (LOG, ''AudioOutputService: Playback started successfully'')] s)
            \<lparr>sounding := sounding s @ [wavData]\<rparr>)"

text \<open>The \<^verbatim>\<open>onended\<close> listener of a player node.\<close>

definition onended :: "base64 \<Rightarrow> service \<Rightarrow> service" where
  "onended b64 s = processQueue b64 (s\<lparr>isPlaying := False\<rparr>)"

definition processBufferedChunks :: "base64 \<Rightarrow> service \<Rightarrow> service" where
  "processBufferedChunks b64 s =
     (let s = clearBufferTimer s
      in if bufferAggregator s \<noteq> [] then
           let combined = combineAudioChunks b64 (bufferAggregator s);
               s = s\<lparr>flushed := flushed s @ [bufferAggregator s], bufferAggregator := []\<rparr>
           in case combined of
                None \<Rightarrow> s
              | Some c \<Rightarrow>
                  let combinedChunk =
                        Obj (Some ''audio'') (Uint8Array (data c))
                          (Some (''audio/pcm;rate='' @ numberToString (sampleRate c)))
                  in processQueue b64 (s\<lparr>audioQueue := audioQueue s @ [combinedChunk]\<rparr>)
         else s)"

text \<open>
  \<open>playAudioChunk\<close> from the point where \<^verbatim>\<open>await configureAudio()\<close> has returned; the
  test of \<^verbatim>\<open>!audioData\<close> before it is the first branch. A chunk is submitted when
  this part runs: the order of submission is the order in which the chunks reach the
  window.
\<close>

definition playAudioChunk :: "base64 \<Rightarrow> jsval \<Rightarrow> service \<Rightarrow> service" where
  "playAudioChunk b64 audioData s =
     (if \<not> truthy audioData
      then say [(WARN, ''AudioOutputService: Received null or undefined audio data'')] s
      else
        let s = s\<lparr>bufferAggregator := bufferAggregator s @ [audioData]\<rparr>;
            s = (if length (bufferAggregator s) = 1 then setTimeout s else s)
        in if length (bufferAggregator s) \<ge> BUFFER_CHUNK_THRESHOLD
           then processBufferedChunks b64 s else s)"

definition clearPlaybackQueue :: "service \<Rightarrow> service" where
  "clearPlaybackQueue s =
     (let s = say [(LOG, ''AudioOutputService: Clearing audio playback queue'')] s;
          s = s\<lparr>audioQueue := [], bufferAggregator := []\<rparr>;
          s = clearBufferTimer s;
          s = s\<lparr>isPlaying := False\<rparr>
      in say [(LOG, ''AudioOutputService: Playback queue cleared'')] s)"

definition cleanupAudioResources :: "service \<Rightarrow> service" where
  "cleanupAudioResources s =
     (let s = say [(LOG, ''AudioOutputService: Cleaning up audio resources...'')] s;
          s = s\<lparr>isPlaying := False\<rparr>
      in say [(LOG, ''AudioOutputService: Audio resources cleaned up'')] s)"

subsection \<open>Events\<close>

text \<open>
  The service runs on one thread; between two events nothing else touches the state.
  An event is a call of an exported function, a timeout that fires, a decode promise
  that settles, or a player node that ends. \<open>step\<close> is \<open>None\<close> where the event cannot
  happen: a timeout that is not pending, a container that is not being decoded or
  played.
\<close>

datatype event =
    Submit jsval
  | TimerFires nat
  | Decoded "byte list" outcome
  | Ended "byte list"
  | Clear
  | Cleanup

fun step :: "base64 \<Rightarrow> event \<Rightarrow> service \<Rightarrow> service option" where
  "step b64 (Submit audioData) s = Some (playAudioChunk b64 audioData s)"
| "step b64 (TimerFires h) s =
     (if h \<in> set (timers s)
      then Some (processBufferedChunks b64 (s\<lparr>timers := removeAll h (timers s)\<rparr>))
      else None)"
| "step b64 (Decoded wavData out) s =
     (if wavData \<in> set (decoding s)
      then Some (afterDecode b64 wavData out (s\<lparr>decoding := remove1 wavData (decoding s)\<rparr>))
      else None)"
| "step b64 (Ended wavData) s =
     (if wavData \<in> set (sounding s)
      then Some (onended b64 (s\<lparr>sounding := remove1 wavData (sounding s)\<rparr>))
      else None)"
| "step b64 Clear s = Some (clearPlaybackQueue s)"
| "step b64 Cleanup s = Some (cleanupAudioResources s)"

fun run :: "base64 \<Rightarrow> event list \<Rightarrow> service \<Rightarrow> service option" where
  "run b64 [] s = Some s"
| "run b64 (e # es) s = (case step b64 e s of None \<Rightarrow> None | Some s' \<Rightarrow> run b64 es s')"

text \<open>The states the service reaches from \<open>init\<close> by events that satisfy \<open>ok\<close>.\<close>

inductive reachableBy :: "(event \<Rightarrow> bool) \<Rightarrow> base64 \<Rightarrow> service \<Rightarrow> bool"
  for ok :: "event \<Rightarrow> bool" and b64 :: base64 where
  reachable_init: "reachableBy ok b64 init"
| reachable_step: "reachableBy ok b64 s \<Longrightarrow> ok e \<Longrightarrow> step b64 e s = Some s' \<Longrightarrow> reachableBy ok b64 s'"

abbreviation reachable :: "base64 \<Rightarrow> service \<Rightarrow> bool" where
  "reachable \<equiv> reachableBy (\<lambda>e. True)"

fun playbackEvent :: "event \<Rightarrow> bool" where
  "playbackEvent Clear = False"
| "playbackEvent Cleanup = False"
| "playbackEvent e = True"

text \<open>The renders that are active: being decoded or being played.\<close>

definition active :: "service \<Rightarrow> byte list list" where
  "active s = decoding s @ sounding s"

subsection \<open>The janitor of temporary files\<close>










subsection \<open>Notions the properties are stated with\<close>

text \<open>
  What a chunk brings to the payload of its window: a raw buffer its bytes, a base64
  string its decoded bytes, a tagged audio object its binary \<^verbatim>\<open>data\<close> field; \<open>None\<close>
  for any other shape.
\<close>

fun payload :: "base64 \<Rightarrow> jsval \<Rightarrow> byte list option" where
  "payload b64 (Uint8Array bs) = Some bs"
| "payload b64 (ArrayBuffer bs) = Some bs"
| "payload b64 (Str s) = Some (b64 s)"
| "payload b64 (Obj t d m) =
     (if t = Some ''audio'' then
        (case d of Uint8Array bs \<Rightarrow> Some bs | ArrayBuffer bs \<Rightarrow> Some bs | _ \<Rightarrow> None)
      else None)"
| "payload b64 v = None"

definition payloadOf :: "base64 \<Rightarrow> jsval \<Rightarrow> byte list" where
  "payloadOf b64 chunk = (case payload b64 chunk of None \<Rightarrow> [] | Some bs \<Rightarrow> bs)"



text \<open>
  The rate a chunk declares: that of the \<^verbatim>\<open>mimeType\<close> of a tagged audio object with
  data. The rate of a window is the one its last declaring chunk declares, and the
  default when no chunk declares one.
\<close>

fun declaredRate :: "jsval \<Rightarrow> nat option" where
  "declaredRate (Obj t d m) = (if t = Some ''audio'' \<and> truthy d then mimeRate m else None)"
| "declaredRate v = None"

fun lastDeclared :: "jsval list \<Rightarrow> nat option" where
  "lastDeclared [] = None"
| "lastDeclared (c # cs) =
     (case lastDeclared cs of None \<Rightarrow> declaredRate c | Some r \<Rightarrow> Some r)"

definition windowRate :: "jsval list \<Rightarrow> nat" where
  "windowRate cs = (case lastDeclared cs of None \<Rightarrow> OUTPUT_SAMPLE_RATE | Some r \<Rightarrow> r)"

text \<open>The chunk that \<^verbatim>\<open>_processBufferedChunks\<close> queues for a window.\<close>

definition combinedChunk :: "base64 \<Rightarrow> jsval list \<Rightarrow> jsval" where
  "combinedChunk b64 cs =
     Obj (Some ''audio'') (Uint8Array (concat (map (payloadOf b64) cs)))
       (Some (''audio/pcm;rate='' @ numberToString (windowRate cs)))"

text \<open>
  The window and its timer: the pending timeouts are the one in \<^verbatim>\<open>bufferTimer\<close> and no
  other, one is pending exactly when the window has chunks, and the window is below
  the threshold.
\<close>

definition windowInv :: "service \<Rightarrow> bool" where
  "windowInv s \<longleftrightarrow>
     timers s = (case bufferTimer s of None \<Rightarrow> [] | Some h \<Rightarrow> [h])
     \<and> (bufferTimer s = None \<longleftrightarrow> bufferAggregator s = [])
     \<and> length (bufferAggregator s) < BUFFER_CHUNK_THRESHOLD"

text \<open>
  The flag and the renders: \<^verbatim>\<open>isPlaying\<close> holds exactly when a render is active, at
  most one is, and nothing waits in the queue while none is.
\<close>

definition playbackInv :: "service \<Rightarrow> bool" where
  "playbackInv s \<longleftrightarrow>
     (isPlaying s \<longleftrightarrow> active s \<noteq> []) \<and> length (active s) \<le> 1
     \<and> (\<not> isPlaying s \<longrightarrow> audioQueue s = [])"








text \<open>A container of one channel and 16 bits a sample, by its header.\<close>

definition monoPcm16 :: "byte list \<Rightarrow> bool" where
  "monoPcm16 w \<longleftrightarrow>
     readUInt16LE w 22 = OUTPUT_CHANNELS \<and> readUInt16LE w 34 = OUTPUT_BITS_PER_SAMPLE"

section \<open>The container encoder\<close>

subsection \<open>Bytes of a number\<close>

lemma unat_le32:
  assumes "n < 4294967296"
  shows "unat (of_nat n :: byte) + 256 * unat (of_nat (n div 256) :: byte)
           + 65536 * unat (of_nat (n div 65536) :: byte)
           + 16777216 * unat (of_nat (n div 16777216) :: byte) = n"
proof -
  define a where "a = n div 256"
  define b where "b = a div 256"
  define c where "c = b div 256"
  have b: "n div 65536 = b"
    using div_mult2_eq [of n 256 256] by (simp add: a_def b_def)
  have c: "n div 16777216 = c"
    using div_mult2_eq [of n 65536 256] b by (simp add: c_def)
  have "c < 256"
    using assms unfolding c [symmetric] by (simp add: less_mult_imp_div_less)
  then have c256: "c mod 256 = c" by simp
  have n: "n = n mod 256 + 256 * a" unfolding a_def by simp
  have a: "a = a mod 256 + 256 * b" unfolding b_def by simp
  have b2: "b = b mod 256 + 256 * c" unfolding c_def by simp
  have "n mod 256 + 256 * (a mod 256) + 65536 * (b mod 256) + 16777216 * c = n"
    using n a b2 by linarith
  then show ?thesis
    by (simp add: unat_of_nat b c c256 a_def [symmetric])
qed

lemma unat_le16:
  assumes "n < 65536"
  shows "unat (of_nat n :: byte) + 256 * unat (of_nat (n div 256) :: byte) = n"
proof -
  have "n div 256 < 256" using assms by (simp add: less_mult_imp_div_less)
  then show ?thesis by (simp add: unat_of_nat)
qed

lemma length_le32: "length (le32 n) = 4"
  by (simp add: le32_def)

lemma length_le16: "length (le16 n) = 2"
  by (simp add: le16_def)

lemma length_utf8: "length (utf8 s) = length s"
  by (simp add: utf8_def)

lemma readUInt32LE_skip:
  "length p \<le> off \<Longrightarrow> readUInt32LE (p @ xs) off = readUInt32LE xs (off - length p)"
  by (simp add: readUInt32LE_def nth_append Suc_diff_le)

lemma readUInt16LE_skip:
  "length p \<le> off \<Longrightarrow> readUInt16LE (p @ xs) off = readUInt16LE xs (off - length p)"
  by (simp add: readUInt16LE_def nth_append Suc_diff_le)

lemma readUInt32LE_here: "n < 4294967296 \<Longrightarrow> readUInt32LE (le32 n @ xs) 0 = n"
  using unat_le32 [of n] by (simp add: readUInt32LE_def le32_def)

lemma readUInt16LE_here: "n < 65536 \<Longrightarrow> readUInt16LE (le16 n @ xs) 0 = n"
  using unat_le16 [of n] by (simp add: readUInt16LE_def le16_def)

lemma slice_skip:
  "length p \<le> a \<Longrightarrow> slice (p @ xs) a b = slice xs (a - length p) (b - length p)"
  by (simp add: slice_def)

lemma slice_here: "length p = b \<Longrightarrow> slice (p @ xs) 0 b = p"
  by (simp add: slice_def)

lemmas read_fields = readUInt32LE_skip readUInt16LE_skip readUInt32LE_here readUInt16LE_here
  slice_skip slice_here length_le32 length_le16 length_utf8

subsection \<open>The header in closed form\<close>

lemma wavHeader_fields:
  assumes "fieldsFit L r c b"
  shows "slice (wavHeader L r c b @ pcm) 0 4 = utf8 ''RIFF''"
    and "readUInt32LE (wavHeader L r c b @ pcm) 4 = 36 + L"
    and "slice (wavHeader L r c b @ pcm) 8 12 = utf8 ''WAVE''"
    and "slice (wavHeader L r c b @ pcm) 12 16 = utf8 ''fmt ''"
    and "readUInt32LE (wavHeader L r c b @ pcm) 16 = 16"
    and "readUInt16LE (wavHeader L r c b @ pcm) 20 = 1"
    and "readUInt16LE (wavHeader L r c b @ pcm) 22 = c"
    and "readUInt32LE (wavHeader L r c b @ pcm) 24 = r"
    and "readUInt32LE (wavHeader L r c b @ pcm) 28 = r * c * b div 8"
    and "readUInt16LE (wavHeader L r c b @ pcm) 32 = c * b div 8"
    and "readUInt16LE (wavHeader L r c b @ pcm) 34 = b"
    and "slice (wavHeader L r c b @ pcm) 36 40 = utf8 ''data''"
    and "readUInt32LE (wavHeader L r c b @ pcm) 40 = L"
proof -
  have a: "36 + L < 4294967296" "c < 65536" "r < 4294967296" "b < 65536" "L < 4294967296"
    using assms by (simp_all add: fieldsFit_def)
  have "r * c * b < 4294967296 * 8" "c * b < 65536 * 8"
    using assms by (simp_all add: fieldsFit_def)
  then have a2: "r * c * b div 8 < 4294967296" "c * b div 8 < 65536"
    by (simp_all only: less_mult_imp_div_less)
  show "slice (wavHeader L r c b @ pcm) 0 4 = utf8 ''RIFF''"
    by (simp add: wavHeader_def read_fields)
  show "readUInt32LE (wavHeader L r c b @ pcm) 4 = 36 + L"
    using a by (simp add: wavHeader_def read_fields)
  show "slice (wavHeader L r c b @ pcm) 8 12 = utf8 ''WAVE''"
    by (simp add: wavHeader_def read_fields)
  show "slice (wavHeader L r c b @ pcm) 12 16 = utf8 ''fmt ''"
    by (simp add: wavHeader_def read_fields)
  show "readUInt32LE (wavHeader L r c b @ pcm) 16 = 16"
    by (simp add: wavHeader_def read_fields)
  show "readUInt16LE (wavHeader L r c b @ pcm) 20 = 1"
    by (simp add: wavHeader_def read_fields)
  show "readUInt16LE (wavHeader L r c b @ pcm) 22 = c"
    using a by (simp add: wavHeader_def read_fields)
  show "readUInt32LE (wavHeader L r c b @ pcm) 24 = r"
    using a by (simp add: wavHeader_def read_fields)
  show "readUInt32LE (wavHeader L r c b @ pcm) 28 = r * c * b div 8"
    using a2 by (simp add: wavHeader_def read_fields)
  show "readUInt16LE (wavHeader L r c b @ pcm) 32 = c * b div 8"
    using a2 by (simp add: wavHeader_def read_fields)
  show "readUInt16LE (wavHeader L r c b @ pcm) 34 = b"
    using a by (simp add: wavHeader_def read_fields)
  show "slice (wavHeader L r c b @ pcm) 36 40 = utf8 ''data''"
    by (simp add: wavHeader_def read_fields)
  show "readUInt32LE (wavHeader L r c b @ pcm) 40 = L"
    using a by (simp add: wavHeader_def read_fields)
qed

lemma length_wavHeader: "length (wavHeader L r c b) = 44"
  by (simp add: wavHeader_def read_fields)

subsection \<open>The encoder computes the closed form, or raises\<close>

lemma alloc44:
  "Buffer_alloc 44 = [0,0,0,0,0,0,0,0,0,0,0, 0,0,0,0,0,0,0,0,0,0,0, 0,0,0,0,0,0,0,0,0,0,0,
     0,0,0,0,0,0,0,0,0,0,0]"
  unfolding Buffer_alloc_def by (simp add: numeral_eq_Suc)

lemma floor_eighth: "\<lfloor>real n / 8\<rfloor> = int (n div 8)"
  using floor_divide_of_nat_eq [of n 8, where ?'a = real] by simp

lemma real_le_numeral: "real n \<le> numeral k \<longleftrightarrow> n \<le> numeral k"
  by (metis of_nat_le_iff of_nat_numeral)

lemma createWavHeader_fits:
  assumes "fieldsFit L r c b"
  shows "createWavHeader r b c L = Inr (wavHeader L r c b)"
proof -
  have a: "36 + L \<le> 4294967295" "c \<le> 65535" "r \<le> 4294967295" "b \<le> 65535"
    and p: "r * c * b \<le> 34359738360" "c * b \<le> 524280"
    using assms by (simp_all add: fieldsFit_def)
  have f1: "\<lfloor>real r * real c * real b / 8\<rfloor> = int (r * c * b div 8)"
    using floor_eighth [of "r * c * b"] by simp
  have f2: "\<lfloor>real c * real b / 8\<rfloor> = int (c * b div 8)"
    using floor_eighth [of "c * b"] by simp
  have "real (r * c * b) \<le> 34359738360" "real (c * b) \<le> 524280"
    using p by (simp_all only: real_le_numeral)
  then have b1: "\<not> 34359738360 < real r * real c * real b" "\<not> 524280 < real c * real b"
    by simp_all
  have b2: "\<not> real c * real b < 0" "\<not> real r * real c * real b < 0"
    by (simp_all add: not_less)
  have n1: "nat (36 + int L) = 36 + L" by simp
  show ?thesis
    using a b1 b2
    by (simp add: createWavHeader_def alloc44 andThen_def Buffer_write_def copyInto_def utf8_def
        writeUInt32LE_def writeUInt16LE_def checkInt_def Let_def wavHeader_def le32_def le16_def
        f1 f2 n1)
qed

lemma writeUInt32LE_Inl: "writeUInt32LE v off buf = Inl e \<Longrightarrow> e = RangeError"
  by (auto simp: writeUInt32LE_def checkInt_def andThen_def Let_def split: if_splits)

lemma writeUInt16LE_Inl: "writeUInt16LE v off buf = Inl e \<Longrightarrow> e = RangeError"
  by (auto simp: writeUInt16LE_def checkInt_def andThen_def Let_def split: if_splits)

lemma writeUInt32LE_Inr: "writeUInt32LE v off buf = Inr buf' \<Longrightarrow> v \<le> 4294967295"
  by (auto simp: writeUInt32LE_def checkInt_def andThen_def Let_def split: if_splits)

lemma writeUInt16LE_Inr: "writeUInt16LE v off buf = Inr buf' \<Longrightarrow> v \<le> 65535"
  by (auto simp: writeUInt16LE_def checkInt_def andThen_def Let_def split: if_splits)

lemma andThen_Inl: "andThen r f = Inl e \<Longrightarrow> r = Inl e \<or> (\<exists>v. r = Inr v \<and> f v = Inl e)"
  by (cases r) (auto simp: andThen_def)

lemma andThen_Inr: "andThen r f = Inr v \<Longrightarrow> \<exists>u. r = Inr u \<and> f u = Inr v"
  by (cases r) (auto simp: andThen_def)

lemma createWavHeader_Inl: "createWavHeader r b c L = Inl e \<Longrightarrow> e = RangeError"
  unfolding createWavHeader_def Let_def
  by (auto dest!: andThen_Inl dest: writeUInt32LE_Inl writeUInt16LE_Inl)

lemma createWavHeader_Inr:
  assumes "createWavHeader r b c L = Inr h"
  shows "fieldsFit L r c b"
proof -
  from assms have "real (36 + L) \<le> 4294967295 \<and> real c \<le> 65535 \<and> real r \<le> 4294967295
      \<and> real r * real c * real b / 8 \<le> 4294967295 \<and> real c * real b / 8 \<le> 65535
      \<and> real b \<le> 65535"
    unfolding createWavHeader_def Let_def
    by (auto dest!: andThen_Inr dest: writeUInt32LE_Inr writeUInt16LE_Inr)
  then have "real (36 + L) \<le> 4294967295" "real c \<le> 65535" "real r \<le> 4294967295"
    "real (r * c * b) \<le> 34359738360" "real (c * b) \<le> 524280" "real b \<le> 65535"
    by simp_all
  then show ?thesis
    unfolding fieldsFit_def real_le_numeral by simp
qed

lemma createWavHeader_unfit:
  assumes "\<not> fieldsFit L r c b"
  shows "createWavHeader r b c L = Inl RangeError"
proof (cases "createWavHeader r b c L")
  case (Inl e)
  then show ?thesis using createWavHeader_Inl by blast
next
  case (Inr h)
  then show ?thesis using assms createWavHeader_Inr by blast
qed

lemma combineWavData_append: "combineWavData h p = h @ p"
  by (simp add: combineWavData_def Buffer_alloc_def copyInto_def Let_def)

lemma createWavFromPcm_fits:
  "fieldsFit (length pcm) r c b \<Longrightarrow>
   createWavFromPcm pcm r c b =
     ([(LOG, ''AudioOutputService: WAV from PCM'')], Inr (wavHeader (length pcm) r c b @ pcm))"
  by (simp add: createWavFromPcm_def createWavHeader_fits combineWavData_append)

lemma createWavFromPcm_unfit:
  "\<not> fieldsFit (length pcm) r c b \<Longrightarrow>
   createWavFromPcm pcm r c b = ([(ERROR, ''Error creating WAV from PCM:'')], Inl RangeError)"
  by (simp add: createWavFromPcm_def createWavHeader_unfit)

text \<open>
  C1 (as amended). For a payload of length \<open>L\<close>, a sample rate \<open>r\<close>, a channel count \<open>c\<close>
  and a bit depth \<open>b\<close> whose header fields fit their widths, the encoder produces a
  44-byte header followed immediately by the payload, with \<open>RIFF\<close> at 0, \<open>36 + L\<close> at 4,
  \<open>WAVE\<close> at 8, \<open>fmt \<close> at 12, 16 at 16, the PCM tag 1 at 20, \<open>c\<close> at 22, \<open>r\<close> at 24,
  \<open>r * c * b / 8\<close> at 28 and \<open>c * b / 8\<close> at 32 (both rounded down), \<open>b\<close> at 34, \<open>data\<close> at
  36 and \<open>L\<close> at 40, every number little-endian. When a field does not fit, the encoder
  raises a \<open>RangeError\<close> and there is no container.
\<close>

theorem createWavFromPcm_layout:
  "(fieldsFit (length pcm) r c b \<longrightarrow>
      (\<exists>out. snd (createWavFromPcm pcm r c b) = Inr out
         \<and> length out = 44 + length pcm \<and> drop 44 out = pcm
         \<and> slice out 0 4 = utf8 ''RIFF''
         \<and> readUInt32LE out 4 = 36 + length pcm
         \<and> slice out 8 12 = utf8 ''WAVE''
         \<and> slice out 12 16 = utf8 ''fmt ''
         \<and> readUInt32LE out 16 = 16
         \<and> readUInt16LE out 20 = 1
         \<and> readUInt16LE out 22 = c
         \<and> readUInt32LE out 24 = r
         \<and> readUInt32LE out 28 = r * c * b div 8
         \<and> readUInt16LE out 32 = c * b div 8
         \<and> readUInt16LE out 34 = b
         \<and> slice out 36 40 = utf8 ''data''
         \<and> readUInt32LE out 40 = length pcm))
   \<and> (\<not> fieldsFit (length pcm) r c b \<longrightarrow>
         snd (createWavFromPcm pcm r c b) = Inl RangeError)"
proof (intro conjI impI)
  assume fit: "fieldsFit (length pcm) r c b"
  let ?out = "wavHeader (length pcm) r c b @ pcm"
  have "snd (createWavFromPcm pcm r c b) = Inr ?out"
    using fit by (simp add: createWavFromPcm_fits)
  moreover have "length ?out = 44 + length pcm" "drop 44 ?out = pcm"
    by (simp_all add: length_wavHeader)
  ultimately show "\<exists>out. snd (createWavFromPcm pcm r c b) = Inr out
         \<and> length out = 44 + length pcm \<and> drop 44 out = pcm
         \<and> slice out 0 4 = utf8 ''RIFF''
         \<and> readUInt32LE out 4 = 36 + length pcm
         \<and> slice out 8 12 = utf8 ''WAVE''
         \<and> slice out 12 16 = utf8 ''fmt ''
         \<and> readUInt32LE out 16 = 16
         \<and> readUInt16LE out 20 = 1
         \<and> readUInt16LE out 22 = c
         \<and> readUInt32LE out 24 = r
         \<and> readUInt32LE out 28 = r * c * b div 8
         \<and> readUInt16LE out 32 = c * b div 8
         \<and> readUInt16LE out 34 = b
         \<and> slice out 36 40 = utf8 ''data''
         \<and> readUInt32LE out 40 = length pcm"
    using wavHeader_fields [OF fit, of pcm] by blast
next
  assume "\<not> fieldsFit (length pcm) r c b"
  then show "snd (createWavFromPcm pcm r c b) = Inl RangeError"
    by (simp add: createWavFromPcm_unfit)
qed

theorem createWavFromPcm_layout_witness:
  "fieldsFit (length [1, 2, 3, 4 :: byte]) 24000 1 16
   \<and> (\<exists>out. snd (createWavFromPcm [1, 2, 3, 4] 24000 1 16) = Inr out
        \<and> length out = 48 \<and> drop 44 out = [1, 2, 3, 4]
        \<and> readUInt32LE out 4 = 40 \<and> readUInt16LE out 22 = 1 \<and> readUInt32LE out 24 = 24000
        \<and> readUInt32LE out 28 = 48000 \<and> readUInt16LE out 32 = 2 \<and> readUInt16LE out 34 = 16
        \<and> readUInt32LE out 40 = 4)
   \<and> \<not> fieldsFit (length ([] :: byte list)) 4294967296 1 16
   \<and> snd (createWavFromPcm [] 4294967296 1 16) = Inl RangeError"
proof -
  have fit: "fieldsFit (length [1, 2, 3, 4 :: byte]) 24000 1 16"
    by (simp add: fieldsFit_def)
  have unfit: "\<not> fieldsFit (length ([] :: byte list)) 4294967296 1 16"
    by (simp add: fieldsFit_def)
  show ?thesis
    using fit unfit createWavFromPcm_layout [of "[1, 2, 3, 4]" 24000 1 16]
      createWavFromPcm_layout [of "[]" 4294967296 1 16]
    by auto
qed

text \<open>
  C1 as it is written speaks of every sample rate. A rate of \<open>2 ^ 32\<close>, which a chunk
  can declare in its MIME type, has no four-byte form: the encoder raises.
\<close>

theorem createWavFromPcm_range_counterexample:
  "snd (createWavFromPcm [] 4294967296 1 16) = Inl RangeError"
  by (simp add: createWavFromPcm_unfit fieldsFit_def)

section \<open>The chunk aggregator\<close>

subsection \<open>What a flush merges\<close>

lemma scanChunk_eq:
  "scanChunk b64 (arr, tot, rate) c =
     (arr @ (case payload b64 c of None \<Rightarrow> [] | Some bs \<Rightarrow> [bs]),
      tot + length (payloadOf b64 c),
      (case declaredRate c of None \<Rightarrow> rate | Some r \<Rightarrow> r))"
proof (cases c)
  case (Obj t d m)
  then show ?thesis
    by (cases d) (simp_all add: payloadOf_def split: option.split)
qed (simp_all add: payloadOf_def)

lemma foldl_scanChunk:
  "foldl (scanChunk b64) (arr, tot, rate) cs =
     (arr @ concat (map (\<lambda>c. case payload b64 c of None \<Rightarrow> [] | Some bs \<Rightarrow> [bs]) cs),
      tot + length (concat (map (payloadOf b64) cs)),
      (case lastDeclared cs of None \<Rightarrow> rate | Some r \<Rightarrow> r))"
proof (induction cs arbitrary: arr tot rate)
  case Nil
  show ?case by simp
next
  case (Cons c cs)
  show ?case
    by (simp only: foldl_Cons scanChunk_eq Cons.IH)
       (simp split: option.split)
qed

lemma concat_payload:
  "concat (concat (map (\<lambda>c. case payload b64 c of None \<Rightarrow> [] | Some bs \<Rightarrow> [bs]) cs)) =
     concat (map (payloadOf b64) cs)"
  by (induction cs) (simp_all add: payloadOf_def split: option.split)

lemma copyInto_fresh:
  "copyInto d (length pre) (pre @ replicate (length d + n) 0) = (pre @ d) @ replicate n 0"
  by (simp add: copyInto_def)

lemma setAll_fresh:
  "setAll ds (length pre) (pre @ replicate (length (concat ds)) 0) = pre @ concat ds"
proof (induction ds arbitrary: pre)
  case Nil
  show ?case by simp
next
  case (Cons d ds)
  have "setAll (d # ds) (length pre) (pre @ replicate (length (concat (d # ds))) 0) =
        setAll ds (length (pre @ d)) ((pre @ d) @ replicate (length (concat ds)) 0)"
    using copyInto_fresh [of d pre "length (concat ds)"] by simp
  then show ?case
    by (simp only: Cons.IH) simp
qed

lemma combineAudioChunks_eq:
  assumes "cs \<noteq> []"
  shows "combineAudioChunks b64 cs =
     Some \<lparr>data = concat (map (payloadOf b64) cs), sampleRate = windowRate cs\<rparr>"
proof -
  let ?arr = "concat (map (\<lambda>c. case payload b64 c of None \<Rightarrow> [] | Some bs \<Rightarrow> [bs]) cs)"
  have "setAll ?arr (length ([] :: byte list)) ([] @ replicate (length (concat ?arr)) 0) = [] @ concat ?arr"
    by (rule setAll_fresh)
  then have "setAll ?arr 0 (replicate (length (concat (map (payloadOf b64) cs))) 0) =
      concat (map (payloadOf b64) cs)"
    by (simp add: concat_payload)
  then show ?thesis
    using assms
    by (simp add: combineAudioChunks_def foldl_scanChunk windowRate_def)
qed

subsection \<open>The rate in the queued chunk\<close>

lemma wavOrNone_fits:
  "fieldsFit (length pcm) r c b \<Longrightarrow>
   wavOrNone (createWavFromPcm pcm r c b) =
     ([(LOG, ''AudioOutputService: WAV from PCM'')], Some (wavHeader (length pcm) r c b @ pcm))"
  by (simp add: wavOrNone_def createWavFromPcm_fits length_wavHeader)

lemma wavOrNone_unfit:
  "\<not> fieldsFit (length pcm) r c b \<Longrightarrow>
   wavOrNone (createWavFromPcm pcm r c b) =
     ([(ERROR, ''Error creating WAV from PCM:''),
       (ERROR, ''AudioOutputService: Error creating WAV data:'')], None)"
  by (simp add: wavOrNone_def createWavFromPcm_unfit)

lemma digit_cases: "d < 10 \<Longrightarrow> d \<in> {0, 1, 2, 3, 4, 5, 6, 7, 8, 9 :: nat}"
  by auto

lemma of_char_digitChar: "d < 10 \<Longrightarrow> (of_char (digitChar d) :: nat) = 48 + d"
  using digit_cases [of d] by (auto simp: digitChar_def)

lemma isDigit_digitChar: "d < 10 \<Longrightarrow> isDigit (digitChar d)"
  by (simp add: isDigit_def of_char_digitChar)

lemma numberToString_digits: "list_all isDigit (numberToString n)"
proof (induction n rule: numberToString.induct)
  case (1 n)
  show ?case
  proof (cases "n < 10")
    case True
    then show ?thesis by (simp add: isDigit_digitChar)
  next
    case False
    then have "list_all isDigit (numberToString (n div 10))" using "1.IH" by simp
    moreover have "isDigit (digitChar (n mod 10))" by (simp add: isDigit_digitChar)
    ultimately show ?thesis
      using False by (subst numberToString.simps) simp
  qed
qed

lemma numberToString_nonempty: "numberToString n \<noteq> []"
  by (subst numberToString.simps) simp

lemma parseInt_snoc: "parseInt (ds @ [c]) = 10 * parseInt ds + (of_char c - 48)"
  by (simp add: parseInt_def)

lemma parseInt_numberToString: "parseInt (numberToString n) = n"
proof (induction n rule: numberToString.induct)
  case (1 n)
  show ?case
  proof (cases "n < 10")
    case True
    then show ?thesis by (simp add: parseInt_def of_char_digitChar)
  next
    case False
    then have "parseInt (numberToString (n div 10)) = n div 10" using "1.IH" by simp
    then have "parseInt (numberToString (n div 10) @ [digitChar (n mod 10)]) = n"
      by (simp add: parseInt_snoc of_char_digitChar)
    then show ?thesis
      using False by (subst numberToString.simps) simp
  qed
qed

lemma takeWhile_digits: "takeWhile isDigit (numberToString n) = numberToString n"
  using numberToString_digits [of n] by (simp add: list_all_iff)

lemma rateMatch_rendered:
  "rateMatch (''audio/pcm;rate='' @ numberToString n) = Some (numberToString n)"
  by (simp add: startsWith_def takeWhile_digits numberToString_nonempty del: numberToString.simps)

lemma includes_rendered:
  "str_includes (''audio/pcm;rate='' @ numberToString n) ''rate=''"
  by (simp add: startsWith_def del: numberToString.simps)

lemma mimeRate_rendered:
  "mimeRate (Some (''audio/pcm;rate='' @ numberToString n)) = Some n"
  unfolding mimeRate_def
  by (simp add: includes_rendered rateMatch_rendered parseInt_numberToString
      del: numberToString.simps str_includes.simps rateMatch.simps append.simps)

lemma processQueue_wav_combined:
  "processQueue_wav b64 (combinedChunk b64 cs) =
     wavOrNone (createWavFromPcm (concat (map (payloadOf b64) cs))
       (if windowRate cs = 0 then OUTPUT_SAMPLE_RATE else windowRate cs) OUTPUT_CHANNELS OUTPUT_BITS_PER_SAMPLE)"
  unfolding processQueue_wav_def combinedChunk_def
  by (simp add: mimeRate_rendered del: numberToString.simps append.simps)

section \<open>The playback queue\<close>

lemma processQueue_stay:
  "isPlaying s \<or> audioQueue s = [] \<Longrightarrow> processQueue b64 s = s"
  by (subst processQueue.simps) simp

lemma processQueue_fail:
  assumes "\<not> isPlaying s" "audioQueue s = item # q" "processQueue_wav b64 item = (ls, None)"
  shows "processQueue b64 s =
     processQueue b64 (s\<lparr>audioQueue := q, console := console s @ ls, isPlaying := False\<rparr>)"
  using assms by (subst processQueue.simps) (simp add: say_def)

lemma processQueue_start:
  assumes "\<not> isPlaying s" "audioQueue s = item # q" "processQueue_wav b64 item = (ls, Some w)"
  shows "processQueue b64 s =
     s\<lparr>isPlaying := True, audioQueue := q, console := console s @ ls,
       decoding := decoding s @ [w]\<rparr>"
  using assms by (subst processQueue.simps) (simp add: say_def)

lemma processQueue_rule:
  assumes stay: "\<And>s. isPlaying s \<or> audioQueue s = [] \<Longrightarrow> P s s"
    and fail: "\<And>s item q ls r. \<not> isPlaying s \<Longrightarrow> audioQueue s = item # q \<Longrightarrow>
        processQueue_wav b64 item = (ls, None) \<Longrightarrow>
        P (s\<lparr>audioQueue := q, console := console s @ ls, isPlaying := False\<rparr>) r \<Longrightarrow> P s r"
    and start: "\<And>s item q ls w. \<not> isPlaying s \<Longrightarrow> audioQueue s = item # q \<Longrightarrow>
        processQueue_wav b64 item = (ls, Some w) \<Longrightarrow>
        P s (s\<lparr>isPlaying := True, audioQueue := q, console := console s @ ls,
               decoding := decoding s @ [w]\<rparr>)"
  shows "P s (processQueue b64 s)"
proof (induction "audioQueue s" arbitrary: s)
  case Nil
  then show ?case by (simp add: processQueue_stay stay)
next
  case (Cons item q)
  show ?case
  proof (cases "isPlaying s")
    case True
    then show ?thesis by (simp add: processQueue_stay stay)
  next
    case False
    obtain ls r where wav: "processQueue_wav b64 item = (ls, r)"
      by (cases "processQueue_wav b64 item")
    show ?thesis
    proof (cases r)
      case None
      let ?s = "s\<lparr>audioQueue := q, console := console s @ ls, isPlaying := False\<rparr>"
      have "P ?s (processQueue b64 ?s)"
        by (rule Cons.hyps(1)) simp
      then have "P s (processQueue b64 ?s)"
        using False Cons.hyps(2) wav None fail [of s item q ls] by simp
      then show ?thesis
        using processQueue_fail [of s item q b64 ls] False Cons.hyps(2) wav None by simp
    next
      case (Some w)
      then show ?thesis
        using processQueue_start [of s item q b64 ls w] start [of s item q ls w]
          False Cons.hyps(2) wav by simp
    qed
  qed
qed

lemma processQueue_window:
  "bufferAggregator (processQueue b64 s) = bufferAggregator s
   \<and> bufferTimer (processQueue b64 s) = bufferTimer s
   \<and> timers (processQueue b64 s) = timers s
   \<and> nextTimer (processQueue b64 s) = nextTimer s
   \<and> flushed (processQueue b64 s) = flushed s
   \<and> sounding (processQueue b64 s) = sounding s"
  by (rule processQueue_rule [where P = "\<lambda>s r. bufferAggregator r = bufferAggregator s
   \<and> bufferTimer r = bufferTimer s \<and> timers r = timers s \<and> nextTimer r = nextTimer s
   \<and> flushed r = flushed s \<and> sounding r = sounding s"]) simp_all

lemmas processQueue_fields [simp] =
  processQueue_window [THEN conjunct1]
  processQueue_window [THEN conjunct2, THEN conjunct1]
  processQueue_window [THEN conjunct2, THEN conjunct2, THEN conjunct1]
  processQueue_window [THEN conjunct2, THEN conjunct2, THEN conjunct2, THEN conjunct1]
  processQueue_window [THEN conjunct2, THEN conjunct2, THEN conjunct2, THEN conjunct2, THEN conjunct1]
  processQueue_window [THEN conjunct2, THEN conjunct2, THEN conjunct2, THEN conjunct2, THEN conjunct2]

text \<open>After \<open>processQueue\<close> from a state that is not playing.\<close>

lemma processQueue_outcome:
  "\<not> isPlaying s \<longrightarrow>
     (\<not> isPlaying (processQueue b64 s) \<and> audioQueue (processQueue b64 s) = []
        \<and> decoding (processQueue b64 s) = decoding s)
     \<or> (isPlaying (processQueue b64 s)
        \<and> (\<exists>item ls w. item \<in> set (audioQueue s) \<and> processQueue_wav b64 item = (ls, Some w)
              \<and> decoding (processQueue b64 s) = decoding s @ [w]))"
  by (rule processQueue_rule [where P = "\<lambda>s r. \<not> isPlaying s \<longrightarrow>
     (\<not> isPlaying r \<and> audioQueue r = [] \<and> decoding r = decoding s)
     \<or> (isPlaying r
        \<and> (\<exists>item ls w. item \<in> set (audioQueue s) \<and> processQueue_wav b64 item = (ls, Some w)
              \<and> decoding r = decoding s @ [w]))"]) auto

lemma processQueue_decoding:
  "set (decoding (processQueue b64 s)) \<subseteq>
     set (decoding s) \<union> {w. \<exists>item ls. processQueue_wav b64 item = (ls, Some w)}"
  by (rule processQueue_rule [where P = "\<lambda>s r. set (decoding r) \<subseteq>
     set (decoding s) \<union> {w. \<exists>item ls. processQueue_wav b64 item = (ls, Some w)}"]) auto

lemma wavOrNone_Some:
  assumes "wavOrNone (createWavFromPcm pcm r c b) = (ls, Some w)"
  shows "fieldsFit (length pcm) r c b \<and> w = wavHeader (length pcm) r c b @ pcm
    \<and> ls = [(LOG, ''AudioOutputService: WAV from PCM'')]"
  using assms wavOrNone_fits [of pcm r c b] wavOrNone_unfit [of pcm r c b]
  by (cases "fieldsFit (length pcm) r c b") auto

lemma processQueue_wav_Some:
  assumes "processQueue_wav b64 item = (ls, Some w)"
  shows "\<exists>pcm r. fieldsFit (length pcm) r OUTPUT_CHANNELS OUTPUT_BITS_PER_SAMPLE
    \<and> w = wavHeader (length pcm) r OUTPUT_CHANNELS OUTPUT_BITS_PER_SAMPLE @ pcm"
proof -
  from assms obtain pcm r where
    "wavOrNone (createWavFromPcm pcm r OUTPUT_CHANNELS OUTPUT_BITS_PER_SAMPLE) = (ls, Some w)"
    unfolding processQueue_wav_def
    by (auto simp: Let_def split: jsval.splits if_splits prod.splits)
  then show ?thesis
    using wavOrNone_Some by blast
qed


section \<open>The window and its timer\<close>

lemma clearBufferTimer_fields [simp]:
  "bufferAggregator (clearBufferTimer s) = bufferAggregator s"
  "bufferTimer (clearBufferTimer s) = None"
  "timers (clearBufferTimer s) =
     (case bufferTimer s of None \<Rightarrow> timers s | Some h \<Rightarrow> removeAll h (timers s))"
  "flushed (clearBufferTimer s) = flushed s"
  "audioQueue (clearBufferTimer s) = audioQueue s"
  "isPlaying (clearBufferTimer s) = isPlaying s"
  "decoding (clearBufferTimer s) = decoding s"
  "sounding (clearBufferTimer s) = sounding s"
  "console (clearBufferTimer s) = console s"
  by (simp_all add: clearBufferTimer_def split: option.split)

lemma processBufferedChunks_flush:
  assumes "bufferAggregator s \<noteq> []"
  shows "processBufferedChunks b64 s =
     processQueue b64 ((clearBufferTimer s)
       \<lparr>flushed := flushed s @ [bufferAggregator s], bufferAggregator := [],
        audioQueue := audioQueue s @ [combinedChunk b64 (bufferAggregator s)]\<rparr>)"
  using assms
  by (simp add: processBufferedChunks_def Let_def combineAudioChunks_eq combinedChunk_def
      del: numberToString.simps)

lemma processBufferedChunks_empty:
  "bufferAggregator s = [] \<Longrightarrow> processBufferedChunks b64 s = clearBufferTimer s"
  by (simp add: processBufferedChunks_def clearBufferTimer_def Let_def split: option.split)

lemma say_fields [simp]:
  "bufferAggregator (say ls s) = bufferAggregator s"
  "bufferTimer (say ls s) = bufferTimer s"
  "timers (say ls s) = timers s"
  "flushed (say ls s) = flushed s"
  "audioQueue (say ls s) = audioQueue s"
  "isPlaying (say ls s) = isPlaying s"
  "decoding (say ls s) = decoding s"
  "sounding (say ls s) = sounding s"
  "console (say ls s) = console s @ ls"
  by (simp_all add: say_def)

text \<open>What an event does to the window, its timer and the history of flushes.\<close>

lemma playAudioChunk_window:
  assumes "windowInv s"
  shows "windowInv (playAudioChunk b64 c s)
    \<and> (flushed (playAudioChunk b64 c s) = flushed s
        \<or> (flushed (playAudioChunk b64 c s) = flushed s @ [bufferAggregator s @ [c]]
            \<and> length (bufferAggregator s @ [c]) = BUFFER_CHUNK_THRESHOLD
            \<and> bufferAggregator (playAudioChunk b64 c s) = []
            \<and> timers (playAudioChunk b64 c s) = []
            \<and> bufferTimer (playAudioChunk b64 c s) = None))"
proof (cases "truthy c")
  case False
  then show ?thesis
    using assms by (simp add: playAudioChunk_def windowInv_def)
next
  case True
  consider "bufferAggregator s = []" | "length (bufferAggregator s) = 1" | "length (bufferAggregator s) = 2"
    using assms by (auto simp: windowInv_def less_Suc_eq numeral_3_eq_3)
  then show ?thesis
  proof cases
    case 1
    then show ?thesis
      using assms True by (simp add: playAudioChunk_def windowInv_def setTimeout_def)
  next
    case 2
    then show ?thesis
      using assms True
      by (auto simp: playAudioChunk_def windowInv_def Let_def split: option.splits)
  next
    case 3
    then have ne: "bufferAggregator (s\<lparr>bufferAggregator := bufferAggregator s @ [c]\<rparr>) \<noteq> []"
      by simp
    show ?thesis
      using assms True 3
      by (auto simp: playAudioChunk_def windowInv_def Let_def processBufferedChunks_flush
          split: option.splits)
  qed
qed

lemma timerFires_window:
  assumes "windowInv s" "h \<in> set (timers s)"
  shows "windowInv (processBufferedChunks b64 (s\<lparr>timers := removeAll h (timers s)\<rparr>))
    \<and> flushed (processBufferedChunks b64 (s\<lparr>timers := removeAll h (timers s)\<rparr>)) =
        flushed s @ [bufferAggregator s]
    \<and> bufferAggregator s \<noteq> [] \<and> bufferTimer s = Some h
    \<and> bufferAggregator (processBufferedChunks b64 (s\<lparr>timers := removeAll h (timers s)\<rparr>)) = []
    \<and> timers (processBufferedChunks b64 (s\<lparr>timers := removeAll h (timers s)\<rparr>)) = []
    \<and> bufferTimer (processBufferedChunks b64 (s\<lparr>timers := removeAll h (timers s)\<rparr>)) = None"
proof -
  from assms have t: "bufferTimer s = Some h" "timers s = [h]" "bufferAggregator s \<noteq> []"
    by (auto simp: windowInv_def split: option.splits)
  then have ne: "bufferAggregator (s\<lparr>timers := removeAll h (timers s)\<rparr>) \<noteq> []"
    by simp
  show ?thesis
    using t by (simp add: processBufferedChunks_flush windowInv_def)
qed

lemma clearPlaybackQueue_fields [simp]:
  "bufferAggregator (clearPlaybackQueue s) = []"
  "bufferTimer (clearPlaybackQueue s) = None"
  "timers (clearPlaybackQueue s) =
     (case bufferTimer s of None \<Rightarrow> timers s | Some h \<Rightarrow> removeAll h (timers s))"
  "flushed (clearPlaybackQueue s) = flushed s"
  "audioQueue (clearPlaybackQueue s) = []"
  "isPlaying (clearPlaybackQueue s) = False"
  "decoding (clearPlaybackQueue s) = decoding s"
  "sounding (clearPlaybackQueue s) = sounding s"
  by (simp_all add: clearPlaybackQueue_def Let_def split: option.split)

lemma cleanupAudioResources_fields [simp]:
  "bufferAggregator (cleanupAudioResources s) = bufferAggregator s"
  "bufferTimer (cleanupAudioResources s) = bufferTimer s"
  "timers (cleanupAudioResources s) = timers s"
  "flushed (cleanupAudioResources s) = flushed s"
  "audioQueue (cleanupAudioResources s) = audioQueue s"
  "isPlaying (cleanupAudioResources s) = False"
  "decoding (cleanupAudioResources s) = decoding s"
  "sounding (cleanupAudioResources s) = sounding s"
  by (simp_all add: cleanupAudioResources_def Let_def)

lemma afterDecode_window [simp]:
  "bufferAggregator (afterDecode b64 w out s) = bufferAggregator s"
  "bufferTimer (afterDecode b64 w out s) = bufferTimer s"
  "timers (afterDecode b64 w out s) = timers s"
  "flushed (afterDecode b64 w out s) = flushed s"
  by (cases out; simp add: afterDecode_def)+

lemma onended_window [simp]:
  "bufferAggregator (onended b64 s) = bufferAggregator s"
  "bufferTimer (onended b64 s) = bufferTimer s"
  "timers (onended b64 s) = timers s"
  "flushed (onended b64 s) = flushed s"
  by (simp_all add: onended_def)

lemma step_window:
  assumes "windowInv s" "step b64 e s = Some s'"
  shows "windowInv s'
    \<and> (flushed s' = flushed s
        \<or> (\<exists>w. w \<noteq> [] \<and> flushed s' = flushed s @ [w]
              \<and> bufferAggregator s' = [] \<and> timers s' = [] \<and> bufferTimer s' = None
              \<and> ((\<exists>c. e = Submit c \<and> w = bufferAggregator s @ [c]
                       \<and> length w = BUFFER_CHUNK_THRESHOLD)
                  \<or> (\<exists>h. e = TimerFires h \<and> w = bufferAggregator s
                       \<and> bufferTimer s = Some h))))"
proof (cases e)
  case (Submit c)
  then show ?thesis
    using assms playAudioChunk_window [OF assms(1), of b64 c] by auto
next
  case (TimerFires h)
  then show ?thesis
    using assms timerFires_window [OF assms(1), of h b64] by (auto split: if_splits)
next
  case (Decoded w out)
  then show ?thesis
    using assms by (auto simp: windowInv_def split: if_splits)
next
  case (Ended w)
  then show ?thesis
    using assms by (auto simp: windowInv_def split: if_splits)
next
  case Clear
  then show ?thesis
    using assms by (auto simp: windowInv_def)
next
  case Cleanup
  then show ?thesis
    using assms by (auto simp: windowInv_def)
qed

lemma reachable_windowInv: "reachableBy ok b64 s \<Longrightarrow> windowInv s"
proof (induction rule: reachableBy.induct)
  case reachable_init
  show ?case by (simp add: windowInv_def init_def)
next
  case (reachable_step s e s')
  then show ?case using step_window by blast
qed

section \<open>Console and containers of a run\<close>





lemma processQueue_wav_mono:
  "processQueue_wav b64 item = (ls, Some w) \<Longrightarrow> monoPcm16 w"
  using processQueue_wav_Some [of b64 item ls w] wavHeader_fields
  by (auto simp: monoPcm16_def)

lemma processQueue_mono:
  assumes "\<forall>w\<in>set (decoding s). monoPcm16 w"
  shows "\<forall>w\<in>set (decoding (processQueue b64 s)). monoPcm16 w"
  using assms processQueue_decoding [of b64 s] processQueue_wav_mono by blast

lemma processBufferedChunks_active:
  "sounding (processBufferedChunks b64 s) = sounding s"
  "set (decoding (processBufferedChunks b64 s)) \<subseteq>
     set (decoding s) \<union> {w. \<exists>item ls. processQueue_wav b64 item = (ls, Some w)}"
proof -
  show "sounding (processBufferedChunks b64 s) = sounding s"
    by (cases "bufferAggregator s = []")
       (simp_all add: processBufferedChunks_empty processBufferedChunks_flush)
  show "set (decoding (processBufferedChunks b64 s)) \<subseteq>
     set (decoding s) \<union> {w. \<exists>item ls. processQueue_wav b64 item = (ls, Some w)}"
  proof (cases "bufferAggregator s = []")
    case True
    then show ?thesis by (simp add: processBufferedChunks_empty)
  next
    case False
    then show ?thesis
      using processQueue_decoding [of b64 "(clearBufferTimer s)
       \<lparr>flushed := flushed s @ [bufferAggregator s], bufferAggregator := [],
        audioQueue := audioQueue s @ [combinedChunk b64 (bufferAggregator s)]\<rparr>"]
      by (simp add: processBufferedChunks_flush)
  qed
qed

lemma playAudioChunk_active:
  "sounding (playAudioChunk b64 c s) = sounding s"
  "set (decoding (playAudioChunk b64 c s)) \<subseteq>
     set (decoding s) \<union> {w. \<exists>item ls. processQueue_wav b64 item = (ls, Some w)}"
proof -
  show "sounding (playAudioChunk b64 c s) = sounding s"
    by (simp add: playAudioChunk_def Let_def processBufferedChunks_active setTimeout_def)
  show "set (decoding (playAudioChunk b64 c s)) \<subseteq>
     set (decoding s) \<union> {w. \<exists>item ls. processQueue_wav b64 item = (ls, Some w)}"
    using processBufferedChunks_active(2) [of b64 "s\<lparr>bufferAggregator := bufferAggregator s @ [c]\<rparr>"]
      processBufferedChunks_active(2) [of b64 "setTimeout (s\<lparr>bufferAggregator := bufferAggregator s @ [c]\<rparr>)"]
    by (auto simp: playAudioChunk_def Let_def setTimeout_def)
qed

lemma step_active:
  assumes "step b64 e s = Some s'"
  shows "set (active s') \<subseteq> set (active s) \<union> {w. \<exists>item ls. processQueue_wav b64 item = (ls, Some w)}"
proof (cases e)
  case (Submit c)
  then show ?thesis
    using assms playAudioChunk_active [of b64 c s] by (auto simp: active_def)
next
  case (TimerFires h)
  then show ?thesis
    using assms processBufferedChunks_active [of b64 "s\<lparr>timers := removeAll h (timers s)\<rparr>"]
    by (auto simp: active_def split: if_splits)
next
  case (Decoded w out)
  then show ?thesis
    using assms
      processQueue_decoding [of b64 "(say [(ERROR, ''AudioOutputService: Error playing audio:'')]
         (s\<lparr>decoding := remove1 w (decoding s)\<rparr>))\<lparr>isPlaying := False\<rparr>"]
      processQueue_decoding [of b64 "(say [(LOG, ''AudioOutputService: Playing audio''),
                   (ERROR, ''AudioOutputService: Error playing sound:''),
                   (ERROR, ''AudioOutputService: Failed to play audio'')]
         (s\<lparr>decoding := remove1 w (decoding s)\<rparr>))\<lparr>isPlaying := False\<rparr>"]
      set_remove1_subset [of w "decoding s"]
    by (cases out) (auto simp: active_def afterDecode_def split: if_splits)
next
  case (Ended w)
  then show ?thesis
    using assms processQueue_decoding [of b64 "s\<lparr>sounding := remove1 w (sounding s), isPlaying := False\<rparr>"]
      set_remove1_subset [of w "sounding s"]
    by (auto simp: active_def onended_def split: if_splits)
next
  case Clear
  then show ?thesis using assms by (auto simp: active_def)
next
  case Cleanup
  then show ?thesis using assms by (auto simp: active_def)
qed

lemma reachable_mono: "reachableBy ok b64 s \<Longrightarrow> \<forall>w\<in>set (active s). monoPcm16 w"
proof (induction rule: reachableBy.induct)
  case reachable_init
  show ?case by (simp add: active_def init_def)
next
  case (reachable_step s e s')
  then show ?case
    using step_active [of b64 e s s'] processQueue_wav_mono by blast
qed

section \<open>Runs of the service\<close>

lemmas run_simps = init_def playAudioChunk_def setTimeout_def processBufferedChunks_flush
  processQueue.simps processQueue_wav_combined wavOrNone_fits wavOrNone_unfit fieldsFit_def
  windowRate_def payloadOf_def clearBufferTimer_def say_def Let_def clearPlaybackQueue_def
  afterDecode_def onended_def


lemma run_reachable:
  "reachableBy ok b64 s \<Longrightarrow> list_all ok es \<Longrightarrow> run b64 es s = Some s' \<Longrightarrow> reachableBy ok b64 s'"
proof (induction es arbitrary: s)
  case Nil
  then show ?case by simp
next
  case (Cons e es)
  then show ?case
    by (auto split: option.splits intro: reachable_step)
qed

section \<open>The window is flushed once\<close>



lemma playAudioChunk_first:
  assumes "truthy c" "bufferAggregator s = []"
  shows "playAudioChunk b64 c s = setTimeout (s\<lparr>bufferAggregator := [c]\<rparr>)"
  using assms by (simp add: playAudioChunk_def setTimeout_def)

lemma step_arms_timer:
  assumes "windowInv s" "truthy c" "bufferAggregator s = []"
  shows "bufferAggregator (playAudioChunk b64 c s) = [c]
    \<and> bufferTimer (playAudioChunk b64 c s) = Some (nextTimer s)
    \<and> timers (playAudioChunk b64 c s) = [nextTimer s]"
  using assms by (auto simp: playAudioChunk_first setTimeout_def windowInv_def)

lemma timer_idle:
  assumes "windowInv s" "bufferAggregator s = []"
  shows "step b64 (TimerFires h) s = None"
  using assms by (auto simp: windowInv_def)

text \<open>
  C7. Every window is flushed once in a fill cycle, by the count or by the deadline and
  never by both. In every reachable state the only pending timeout is the one in
  \<^verbatim>\<open>bufferTimer\<close>, one is pending exactly when the window holds chunks, and the window is
  below the threshold. An event flushes at most one window, and then the whole of it: a
  submission that brings the count to the threshold, or the timeout; after the flush the
  window is empty and no timeout is pending. The first chunk that enters an empty window
  arms the timeout, and while the window is empty no timeout can fire. The wall clock is
  not modelled: the deadline is the event that the pending timeout fires.
\<close>

theorem window_flushed_once:
  assumes "reachable b64 s" and "step b64 e s = Some s'"
  shows "windowInv s \<and> windowInv s'
    \<and> (flushed s' = flushed s
        \<or> (\<exists>w. w \<noteq> [] \<and> flushed s' = flushed s @ [w]
              \<and> bufferAggregator s' = [] \<and> timers s' = [] \<and> bufferTimer s' = None
              \<and> ((\<exists>c. e = Submit c \<and> w = bufferAggregator s @ [c]
                       \<and> length w = BUFFER_CHUNK_THRESHOLD)
                  \<or> (\<exists>h. e = TimerFires h \<and> w = bufferAggregator s
                       \<and> bufferTimer s = Some h))))
    \<and> (\<forall>c. e = Submit c \<and> truthy c \<and> bufferAggregator s = [] \<longrightarrow>
          bufferAggregator s' = [c] \<and> bufferTimer s' = Some (nextTimer s)
          \<and> timers s' = [nextTimer s])
    \<and> (\<forall>h. bufferAggregator s' = [] \<longrightarrow> step b64 (TimerFires h) s' = None)"
proof -
  have inv: "windowInv s"
    using assms(1) by (rule reachable_windowInv)
  have inv': "windowInv s'"
    using step_window [OF inv assms(2)] by simp
  have arm: "\<forall>c. e = Submit c \<and> truthy c \<and> bufferAggregator s = [] \<longrightarrow>
          bufferAggregator s' = [c] \<and> bufferTimer s' = Some (nextTimer s)
          \<and> timers s' = [nextTimer s]"
    using assms(2) step_arms_timer [OF inv] by auto
  have idle: "\<forall>h. bufferAggregator s' = [] \<longrightarrow> step b64 (TimerFires h) s' = None"
    using timer_idle [OF inv'] by blast
  show ?thesis
    using inv step_window [OF inv assms(2)] arm idle by blast
qed

theorem window_flushed_once_witness:
  "reachable (\<lambda>_. [])
     \<lparr>isPlaying = False, audioQueue = [], bufferAggregator = [Uint8Array [1], Uint8Array [2]],
      bufferTimer = Some 1, console = [], timers = [1], nextTimer = 2, decoding = [],
      sounding = [], flushed = []\<rparr>
   \<and> step (\<lambda>_. []) (Submit (Uint8Array [3]))
     \<lparr>isPlaying = False, audioQueue = [], bufferAggregator = [Uint8Array [1], Uint8Array [2]],
      bufferTimer = Some 1, console = [], timers = [1], nextTimer = 2, decoding = [],
      sounding = [], flushed = []\<rparr>
     = Some \<lparr>isPlaying = True, audioQueue = [], bufferAggregator = [], bufferTimer = None,
         console = [(LOG, ''AudioOutputService: WAV from PCM'')], timers = [], nextTimer = 2,
         decoding = [wavHeader 3 24000 1 16 @ [1, 2, 3]], sounding = [],
         flushed = [[Uint8Array [1], Uint8Array [2], Uint8Array [3]]]\<rparr>
   \<and> windowInv \<lparr>isPlaying = True, audioQueue = [], bufferAggregator = [], bufferTimer = None,
         console = [(LOG, ''AudioOutputService: WAV from PCM'')], timers = [], nextTimer = 2,
         decoding = [wavHeader 3 24000 1 16 @ [1, 2, 3]], sounding = [],
         flushed = [[Uint8Array [1], Uint8Array [2], Uint8Array [3]]]\<rparr>
   \<and> step (\<lambda>_. []) (TimerFires 1)
       \<lparr>isPlaying = True, audioQueue = [], bufferAggregator = [], bufferTimer = None,
         console = [(LOG, ''AudioOutputService: WAV from PCM'')], timers = [], nextTimer = 2,
         decoding = [wavHeader 3 24000 1 16 @ [1, 2, 3]], sounding = [],
         flushed = [[Uint8Array [1], Uint8Array [2], Uint8Array [3]]]\<rparr> = None"
proof -
  let ?d = "\<lambda>_ :: string. [] :: byte list"
  let ?s = "\<lparr>isPlaying = False, audioQueue = [], bufferAggregator = [Uint8Array [1], Uint8Array [2]],
      bufferTimer = Some 1, console = [], timers = [1], nextTimer = 2, decoding = [],
      sounding = [], flushed = []\<rparr>"
  let ?s' = "\<lparr>isPlaying = True, audioQueue = [], bufferAggregator = [], bufferTimer = None,
         console = [(LOG, ''AudioOutputService: WAV from PCM'')], timers = [], nextTimer = 2,
         decoding = [wavHeader 3 24000 1 16 @ [1, 2, 3]], sounding = [],
         flushed = [[Uint8Array [1], Uint8Array [2], Uint8Array [3]]]\<rparr>"
  have run2: "run ?d [Submit (Uint8Array [1]), Submit (Uint8Array [2])] init = Some ?s"
    by (simp add: run_simps numeral_2_eq_2 [symmetric])
  have reach: "reachable ?d ?s"
    using run_reachable [OF reachable_init _ run2] by simp
  have st: "step ?d (Submit (Uint8Array [3])) ?s = Some ?s'"
    by (simp add: run_simps numeral_2_eq_2 [symmetric])
  from window_flushed_once [OF reach st] have "windowInv ?s'"
    and "\<forall>h. bufferAggregator ?s' = [] \<longrightarrow> step ?d (TimerFires h) ?s' = None"
    by blast+
  then have "windowInv ?s'" and "step ?d (TimerFires 1) ?s' = None"
    by simp_all
  with reach st show ?thesis
    by (intro conjI)
qed

section \<open>One channel, sixteen bits\<close>

text \<open>
  C10. Every container the pipeline builds has channel count 1 and bit depth 16,
  whatever the chunks hold: each container \<^verbatim>\<open>_processQueue\<close> builds from a queue item
  has the header fields NumChannels = 1 and BitsPerSample = 16, and so has every
  container that is being decoded or played in a reachable state.
\<close>

theorem containers_mono_16bit:
  "(\<forall>item ls w. processQueue_wav b64 item = (ls, Some w) \<longrightarrow> monoPcm16 w)
   \<and> (reachable b64 s \<longrightarrow> (\<forall>w\<in>set (active s). monoPcm16 w))"
  using processQueue_wav_mono reachable_mono by blast

theorem containers_mono_16bit_witness:
  "processQueue_wav (\<lambda>_. []) (Uint8Array [1, 2]) =
     ([(LOG, ''AudioOutputService: WAV from PCM'')], Some (wavHeader 2 24000 1 16 @ [1, 2]))
   \<and> monoPcm16 (wavHeader 2 24000 1 16 @ [1, 2])
   \<and> reachable (\<lambda>_. []) (the (run (\<lambda>_. [])
        [Submit (Uint8Array [1]), Submit (Uint8Array [2]), Submit (Uint8Array [3])] init))
   \<and> active (the (run (\<lambda>_. [])
        [Submit (Uint8Array [1]), Submit (Uint8Array [2]), Submit (Uint8Array [3])] init))
      = [wavHeader 3 24000 1 16 @ [1, 2, 3]]
   \<and> monoPcm16 (wavHeader 3 24000 1 16 @ [1, 2, 3])"
proof -
  let ?d = "\<lambda>_ :: string. [] :: byte list"
  let ?s = "the (run ?d [Submit (Uint8Array [1]), Submit (Uint8Array [2]), Submit (Uint8Array [3])] init)"
  have wav: "processQueue_wav ?d (Uint8Array [1, 2]) =
     ([(LOG, ''AudioOutputService: WAV from PCM'')], Some (wavHeader 2 24000 1 16 @ [1, 2]))"
    by (simp add: processQueue_wav_def wavOrNone_fits fieldsFit_def numeral_2_eq_2 [symmetric])
  have run3: "run ?d [Submit (Uint8Array [1]), Submit (Uint8Array [2]), Submit (Uint8Array [3])] init = Some ?s"
    by (simp add: run_simps)
  have reach: "reachable ?d ?s"
    using run_reachable [OF reachable_init _ run3] by simp
  have act: "active ?s = [wavHeader 3 24000 1 16 @ [1, 2, 3]]"
    by (simp add: run_simps active_def numeral_2_eq_2 [symmetric])
  from containers_mono_16bit [of ?d ?s] wav reach act
  have "monoPcm16 (wavHeader 2 24000 1 16 @ [1, 2])" "monoPcm16 (wavHeader 3 24000 1 16 @ [1, 2, 3])"
    by (blast, simp)
  with wav reach act show ?thesis by blast
qed

section \<open>Chunks of an unsupported shape\<close>




section \<open>The sample rate of a window\<close>







section \<open>A window filled within the threshold\<close>








section \<open>A render that fails\<close>

lemma processQueue_console:
  "\<forall>c. (processQueue b64 (s\<lparr>console := c\<rparr>))\<lparr>console := []\<rparr> = (processQueue b64 s)\<lparr>console := []\<rparr>"
proof (rule processQueue_rule [where P = "\<lambda>s r. \<forall>c. (processQueue b64 (s\<lparr>console := c\<rparr>))\<lparr>console := []\<rparr> = r\<lparr>console := []\<rparr>"])
  fix s :: service
  assume "isPlaying s \<or> audioQueue s = []"
  then show "\<forall>c. (processQueue b64 (s\<lparr>console := c\<rparr>))\<lparr>console := []\<rparr> = s\<lparr>console := []\<rparr>"
    by (simp add: processQueue_stay)
next
  fix s :: service and item q ls r
  assume a: "\<not> isPlaying s" "audioQueue s = item # q" "processQueue_wav b64 item = (ls, None)"
    and ih: "\<forall>c. (processQueue b64 (s\<lparr>audioQueue := q, console := console s @ ls, isPlaying := False, console := c\<rparr>))\<lparr>console := []\<rparr> = r\<lparr>console := []\<rparr>"
  show "\<forall>c. (processQueue b64 (s\<lparr>console := c\<rparr>))\<lparr>console := []\<rparr> = r\<lparr>console := []\<rparr>"
  proof
    fix c
    have "processQueue b64 (s\<lparr>console := c\<rparr>) =
        processQueue b64 (s\<lparr>console := c, audioQueue := q, console := c @ ls, isPlaying := False\<rparr>)"
      using processQueue_fail [of "s\<lparr>console := c\<rparr>" item q b64 ls] a by simp
    also have "s\<lparr>console := c, audioQueue := q, console := c @ ls, isPlaying := False\<rparr> =
        s\<lparr>audioQueue := q, console := console s @ ls, isPlaying := False, console := c @ ls\<rparr>"
      by simp
    finally show "(processQueue b64 (s\<lparr>console := c\<rparr>))\<lparr>console := []\<rparr> = r\<lparr>console := []\<rparr>"
      using ih by simp
  qed
next
  fix s :: service and item q ls w
  assume a: "\<not> isPlaying s" "audioQueue s = item # q" "processQueue_wav b64 item = (ls, Some w)"
  show "\<forall>c. (processQueue b64 (s\<lparr>console := c\<rparr>))\<lparr>console := []\<rparr> =
      s\<lparr>isPlaying := True, audioQueue := q, console := console s @ ls,
        decoding := decoding s @ [w]\<rparr>\<lparr>console := []\<rparr>"
    using processQueue_start [of "s\<lparr>console := c\<rparr>" item q b64 ls w for c] a by simp
qed

lemma failure_as_completion:
  assumes "out \<noteq> Started"
  shows "(afterDecode b64 w out s)\<lparr>console := []\<rparr> = (onended b64 s)\<lparr>console := []\<rparr>"
proof -
  have "(processQueue b64 ((say ls s)\<lparr>isPlaying := False\<rparr>))\<lparr>console := []\<rparr> =
      (processQueue b64 (s\<lparr>isPlaying := False\<rparr>))\<lparr>console := []\<rparr>" for ls
  proof -
    have eq: "(say ls s)\<lparr>isPlaying := False\<rparr> =
        (s\<lparr>isPlaying := False\<rparr>)\<lparr>console := console s @ ls\<rparr>"
      by (simp add: say_def)
    show ?thesis
      unfolding eq
      using processQueue_console [rule_format, where s = "s\<lparr>isPlaying := False\<rparr>"
          and c = "console s @ ls" and ?b64.0 = b64]
      by simp
  qed
  then show ?thesis
    using assms by (cases out) (simp_all add: afterDecode_def onended_def)
qed

lemma failure_not_stuck:
  assumes "out \<noteq> Started"
  shows "(\<not> isPlaying (afterDecode b64 w out s) \<and> audioQueue (afterDecode b64 w out s) = []
          \<and> decoding (afterDecode b64 w out s) = decoding s)
     \<or> (isPlaying (afterDecode b64 w out s)
          \<and> (\<exists>w'. decoding (afterDecode b64 w out s) = decoding s @ [w']))"
proof -
  have "(\<not> isPlaying (processQueue b64 ((say ls s)\<lparr>isPlaying := False\<rparr>))
          \<and> audioQueue (processQueue b64 ((say ls s)\<lparr>isPlaying := False\<rparr>)) = []
          \<and> decoding (processQueue b64 ((say ls s)\<lparr>isPlaying := False\<rparr>)) = decoding s)
     \<or> (isPlaying (processQueue b64 ((say ls s)\<lparr>isPlaying := False\<rparr>))
          \<and> (\<exists>w'. decoding (processQueue b64 ((say ls s)\<lparr>isPlaying := False\<rparr>)) = decoding s @ [w']))" for ls
    using processQueue_outcome [of "(say ls s)\<lparr>isPlaying := False\<rparr>" b64] by auto
  then show ?thesis
    using assms by (cases out) (simp_all add: afterDecode_def)
qed

text \<open>
  C5. A queue item whose render fails is discarded and the queue goes on as on a
  completion. An item that \<^verbatim>\<open>_processQueue\<close> gives up before decoding (null data, an
  unsupported shape, no container) is taken off the queue and the next item is tried at
  once. When the decoder rejects the container or the node fails to start, the state
  after is the state after \<^verbatim>\<open>onended\<close>, the console apart. After such a failure the
  service is idle with an empty queue, or it plays and a new render is under way.
\<close>

theorem render_failure_advances:
  "(\<not> isPlaying s \<and> audioQueue s = item # q \<and> processQueue_wav b64 item = (ls, None) \<longrightarrow>
       processQueue b64 s =
         processQueue b64 (s\<lparr>audioQueue := q, console := console s @ ls, isPlaying := False\<rparr>))
   \<and> snd (processQueue_wav b64 Falsy) = None
   \<and> snd (processQueue_wav b64 Other) = None
   \<and> snd (processQueue_wav b64 (Obj None d m)) = None
   \<and> (out \<noteq> Started \<longrightarrow>
        (afterDecode b64 w out s)\<lparr>console := []\<rparr> = (onended b64 s)\<lparr>console := []\<rparr>)
   \<and> (out \<noteq> Started \<longrightarrow>
        (\<not> isPlaying (afterDecode b64 w out s) \<and> audioQueue (afterDecode b64 w out s) = []
          \<and> decoding (afterDecode b64 w out s) = decoding s)
        \<or> (isPlaying (afterDecode b64 w out s)
          \<and> (\<exists>w'. decoding (afterDecode b64 w out s) = decoding s @ [w'])))"
proof -
  have "snd (processQueue_wav b64 Falsy) = None" "snd (processQueue_wav b64 Other) = None"
    "snd (processQueue_wav b64 (Obj None d m)) = None"
    by (simp_all add: processQueue_wav_def)
  then show ?thesis
    using processQueue_fail [of s item q b64 ls] failure_as_completion [of out b64 w s]
      failure_not_stuck [of out b64 w s]
    by blast
qed

theorem render_failure_advances_witness:
  "\<not> isPlaying (init\<lparr>audioQueue := [Other, Uint8Array [1, 2]]\<rparr>)
   \<and> audioQueue (init\<lparr>audioQueue := [Other, Uint8Array [1, 2]]\<rparr>) = Other # [Uint8Array [1, 2]]
   \<and> processQueue_wav (\<lambda>_. []) Other =
        ([(ERROR, ''AudioOutputService: Unsupported audio data format'')], None)
   \<and> processQueue (\<lambda>_. []) (init\<lparr>audioQueue := [Other, Uint8Array [1, 2]]\<rparr>) =
        processQueue (\<lambda>_. []) (init\<lparr>audioQueue := [Uint8Array [1, 2]],
          console := [(ERROR, ''AudioOutputService: Unsupported audio data format'')],
          isPlaying := False\<rparr>)
   \<and> DecodeFailed \<noteq> Started
   \<and> (afterDecode (\<lambda>_. []) [] DecodeFailed
        (init\<lparr>isPlaying := True, audioQueue := [Uint8Array [1, 2]]\<rparr>))\<lparr>console := []\<rparr>
      = (onended (\<lambda>_. []) (init\<lparr>isPlaying := True, audioQueue := [Uint8Array [1, 2]]\<rparr>))
          \<lparr>console := []\<rparr>
   \<and> isPlaying (afterDecode (\<lambda>_. []) [] DecodeFailed
        (init\<lparr>isPlaying := True, audioQueue := [Uint8Array [1, 2]]\<rparr>))
   \<and> decoding (afterDecode (\<lambda>_. []) [] DecodeFailed
        (init\<lparr>isPlaying := True, audioQueue := [Uint8Array [1, 2]]\<rparr>))
      = [wavHeader 2 24000 1 16 @ [1, 2]]"
proof -
  let ?d = "\<lambda>_ :: string. [] :: byte list"
  let ?s = "init\<lparr>audioQueue := [Other, Uint8Array [1, 2]]\<rparr>"
  let ?t = "init\<lparr>isPlaying := True, audioQueue := [Uint8Array [1, 2]]\<rparr>"
  have h: "\<not> isPlaying ?s" "audioQueue ?s = Other # [Uint8Array [1, 2]]"
    "processQueue_wav ?d Other = ([(ERROR, ''AudioOutputService: Unsupported audio data format'')], None)"
    by (simp_all add: init_def processQueue_wav_def)
  have c: "console ?s = []" by (simp add: init_def)
  have ne: "DecodeFailed \<noteq> Started" by simp
  note T = render_failure_advances [of ?s Other "[Uint8Array [1, 2]]" ?d
      "[(ERROR, ''AudioOutputService: Unsupported audio data format'')]" _ _ DecodeFailed "[]"]
  have 1: "processQueue ?d ?s = processQueue ?d (?s\<lparr>audioQueue := [Uint8Array [1, 2]],
      console := console ?s @ [(ERROR, ''AudioOutputService: Unsupported audio data format'')],
      isPlaying := False\<rparr>)"
    using T h by blast
  have 2: "(afterDecode ?d [] DecodeFailed ?t)\<lparr>console := []\<rparr> = (onended ?d ?t)\<lparr>console := []\<rparr>"
    using render_failure_advances [of ?t _ _ ?d _ _ _ DecodeFailed "[]"] ne by blast
  have 3: "isPlaying (afterDecode ?d [] DecodeFailed ?t)"
    "decoding (afterDecode ?d [] DecodeFailed ?t) = [wavHeader 2 24000 1 16 @ [1, 2]]"
    by (simp_all add: run_simps processQueue_wav_def numeral_2_eq_2 [symmetric])
  have one: "processQueue ?d ?s = processQueue ?d (init\<lparr>audioQueue := [Uint8Array [1, 2]],
          console := [(ERROR, ''AudioOutputService: Unsupported audio data format'')],
          isPlaying := False\<rparr>)"
    using 1 by (simp add: init_def)
  from h ne one 2 3 show ?thesis
    by (intro conjI)
qed

section \<open>One render at a time, and the clear that breaks it\<close>

text \<open>
  Without \<^verbatim>\<open>clearPlaybackQueue\<close> and \<^verbatim>\<open>cleanupAudioResources\<close> the flag and the renders
  agree in every reachable state.
\<close>

lemma playbackInv_active:
  assumes "playbackInv s"
  shows "if isPlaying s then length (active s) = 1 else active s = []"
proof (cases "active s")
  case Nil
  then show ?thesis using assms by (simp add: playbackInv_def)
next
  case (Cons w ws)
  then show ?thesis using assms by (simp add: playbackInv_def)
qed

lemma processQueue_playbackInv:
  assumes "if isPlaying s then length (active s) = 1 else active s = []"
  shows "playbackInv (processQueue b64 s)"
proof (cases "isPlaying s")
  case True
  then have "length (active s) = 1" using assms by simp
  then have "active s \<noteq> []" "length (active s) \<le> 1" by auto
  then show ?thesis
    using True by (simp add: processQueue_stay playbackInv_def)
next
  case False
  then have "active s = []" using assms by simp
  then show ?thesis
    using False processQueue_outcome [of s b64]
    by (auto simp: playbackInv_def active_def)
qed

lemma playbackInv_updates [simp]:
  "playbackInv (s\<lparr>bufferAggregator := x\<rparr>) = playbackInv s"
  "playbackInv (s\<lparr>timers := t\<rparr>) = playbackInv s"
  "playbackInv (setTimeout s) = playbackInv s"
  "playbackInv (say ls s) = playbackInv s"
  by (simp_all add: playbackInv_def active_def setTimeout_def say_def)

lemma processBufferedChunks_playbackInv:
  assumes "playbackInv s"
  shows "playbackInv (processBufferedChunks b64 s)"
proof (cases "bufferAggregator s = []")
  case True
  then show ?thesis
    using assms by (simp add: processBufferedChunks_empty playbackInv_def active_def)
next
  case False
  let ?t = "(clearBufferTimer s)
       \<lparr>flushed := flushed s @ [bufferAggregator s], bufferAggregator := [],
        audioQueue := audioQueue s @ [combinedChunk b64 (bufferAggregator s)]\<rparr>"
  have "active ?t = active s" "isPlaying ?t = isPlaying s"
    by (simp_all add: active_def)
  then have "if isPlaying ?t then length (active ?t) = 1 else active ?t = []"
    using playbackInv_active [OF assms] by (simp only:)
  then have "playbackInv (processQueue b64 ?t)"
    by (rule processQueue_playbackInv)
  then show ?thesis
    using processBufferedChunks_flush [OF False, of b64] by simp
qed

lemma playAudioChunk_playbackInv:
  assumes "playbackInv s"
  shows "playbackInv (playAudioChunk b64 c s)"
  using assms by (simp add: playAudioChunk_def Let_def processBufferedChunks_playbackInv)

lemma step_playbackInv:
  assumes "playbackInv s" "playbackEvent e" "step b64 e s = Some s'"
  shows "playbackInv s'"
proof (cases e)
  case (Submit c)
  then show ?thesis
    using assms playAudioChunk_playbackInv by auto
next
  case (TimerFires h)
  have "playbackInv (s\<lparr>timers := removeAll h (timers s)\<rparr>)"
    using assms(1) by simp
  then show ?thesis
    using TimerFires assms(3) processBufferedChunks_playbackInv by (auto split: if_splits)
next
  case (Decoded w out)
  then have w: "w \<in> set (decoding s)"
    and s': "s' = afterDecode b64 w out (s\<lparr>decoding := remove1 w (decoding s)\<rparr>)"
    using assms(3) by (auto split: if_splits)
  from w assms(1) have one: "decoding s = [w]" "sounding s = []" "isPlaying s"
    by (cases "decoding s"; auto simp: playbackInv_def active_def)+
  show ?thesis
  proof (cases out)
    case Started
    then show ?thesis
      using s' one by (simp add: afterDecode_def playbackInv_def active_def)
  next
    case DecodeFailed
    then show ?thesis
      using s' one
      by (simp add: afterDecode_def) (rule processQueue_playbackInv, simp add: active_def)
  next
    case StartFailed
    then show ?thesis
      using s' one
      by (simp add: afterDecode_def) (rule processQueue_playbackInv, simp add: active_def)
  qed
next
  case (Ended w)
  then have w: "w \<in> set (sounding s)"
    and s': "s' = onended b64 (s\<lparr>sounding := remove1 w (sounding s)\<rparr>)"
    using assms(3) by (auto split: if_splits)
  from w assms(1) have one: "sounding s = [w]" "decoding s = []"
    by (cases "sounding s"; auto simp: playbackInv_def active_def)+
  show ?thesis
    using s' one
    by (simp add: onended_def) (rule processQueue_playbackInv, simp add: active_def)
next
  case Clear
  then show ?thesis using assms(2) by simp
next
  case Cleanup
  then show ?thesis using assms(2) by simp
qed

lemma playback_reachable_inv: "reachableBy playbackEvent b64 s \<Longrightarrow> playbackInv s"
proof (induction rule: reachableBy.induct)
  case reachable_init
  show ?case by (simp add: playbackInv_def active_def init_def)
next
  case (reachable_step s e s')
  then show ?case using step_playbackInv by blast
qed

text \<open>
  What \<^verbatim>\<open>clearPlaybackQueue\<close> does: it empties the queue and the window, cancels the
  timeout and resets the flag, a second clear changes nothing but the console, and the
  next item queued is rendered at once. The renders under way are left as they are.
\<close>

lemma clearPlaybackQueue_effect:
  "audioQueue (clearPlaybackQueue s) = [] \<and> bufferAggregator (clearPlaybackQueue s) = []
   \<and> bufferTimer (clearPlaybackQueue s) = None \<and> \<not> isPlaying (clearPlaybackQueue s)
   \<and> active (clearPlaybackQueue s) = active s
   \<and> (clearPlaybackQueue (clearPlaybackQueue s))\<lparr>console := c\<rparr> = (clearPlaybackQueue s)\<lparr>console := c\<rparr>"
  by (simp add: active_def)
    (simp add: clearPlaybackQueue_def clearBufferTimer_def say_def Let_def split: option.split)

lemma enqueue_after_clear:
  assumes "processQueue_wav b64 item = (ls, Some w)"
  shows "processQueue b64 ((clearPlaybackQueue s)\<lparr>audioQueue := [item]\<rparr>) =
     (clearPlaybackQueue s)\<lparr>audioQueue := [item], isPlaying := True, audioQueue := [],
        console := console (clearPlaybackQueue s) @ ls, decoding := decoding s @ [w]\<rparr>"
  using processQueue_start [of "(clearPlaybackQueue s)\<lparr>audioQueue := [item]\<rparr>" item "[]" b64 ls w]
    assms
  by simp

text \<open>
  C3. The claim is that at most one render is active and that the queue is never idle
  with an active render, in every interleaving that includes clear events. The code
  does not keep it: \<^verbatim>\<open>clearPlaybackQueue\<close> resets \<^verbatim>\<open>isPlaying\<close> and leaves the render
  that is under way. After three chunks and a clear the service is idle with an active
  render; after three more chunks two renders are active.
\<close>

theorem clear_mid_render_idle_with_active_render:
  "map_option (\<lambda>s. (isPlaying s, audioQueue s, active s))
     (run (\<lambda>_. []) [Submit (Uint8Array [1]), Submit (Uint8Array [2]), Submit (Uint8Array [3]),
        Clear] init)
     = Some (False, [], [wavHeader 3 24000 1 16 @ [1, 2, 3]])
   \<and> map_option (\<lambda>s. (isPlaying s, audioQueue s, active s))
     (run (\<lambda>_. []) [Submit (Uint8Array [1]), Submit (Uint8Array [2]), Submit (Uint8Array [3]),
        Clear,
        Submit (Uint8Array [4]), Submit (Uint8Array [5]), Submit (Uint8Array [6])] init)
     = Some (True, [], [wavHeader 3 24000 1 16 @ [1, 2, 3], wavHeader 3 24000 1 16 @ [4, 5, 6]])"
  by (simp add: run_simps active_def numeral_2_eq_2 [symmetric])

text \<open>
  C4. The claim is that a clear drops the item in flight and cancels its render. The
  code does not: a clear while a node plays leaves the node playing; the next window
  starts a second render beside it; and when the old node ends, its listener resets
  \<^verbatim>\<open>isPlaying\<close> while the second render is active.
\<close>

theorem clear_does_not_cancel_render:
  "map_option (\<lambda>s. (isPlaying s, decoding s, sounding s))
     (run (\<lambda>_. []) [Submit (Uint8Array [1]), Submit (Uint8Array [2]), Submit (Uint8Array [3]),
        Decoded (wavHeader 3 24000 1 16 @ [1, 2, 3]) Started,
        Clear] init)
     = Some (False, [], [wavHeader 3 24000 1 16 @ [1, 2, 3]])
   \<and> map_option (\<lambda>s. (isPlaying s, decoding s, sounding s))
     (run (\<lambda>_. []) [Submit (Uint8Array [1]), Submit (Uint8Array [2]), Submit (Uint8Array [3]),
        Decoded (wavHeader 3 24000 1 16 @ [1, 2, 3]) Started,
        Clear,
        Submit (Uint8Array [4]), Submit (Uint8Array [5]), Submit (Uint8Array [6])] init)
     = Some (True, [wavHeader 3 24000 1 16 @ [4, 5, 6]], [wavHeader 3 24000 1 16 @ [1, 2, 3]])
   \<and> map_option (\<lambda>s. (isPlaying s, decoding s, sounding s))
     (run (\<lambda>_. []) [Submit (Uint8Array [1]), Submit (Uint8Array [2]), Submit (Uint8Array [3]),
        Decoded (wavHeader 3 24000 1 16 @ [1, 2, 3]) Started,
        Clear,
        Submit (Uint8Array [4]), Submit (Uint8Array [5]), Submit (Uint8Array [6]),
        Ended (wavHeader 3 24000 1 16 @ [1, 2, 3])] init)
     = Some (False, [wavHeader 3 24000 1 16 @ [4, 5, 6]], [])"
  by (simp add: run_simps numeral_2_eq_2 [symmetric])

section \<open>The janitor\<close>










subsection \<open>Name order and stamps\<close>












end
